theory Spec2Isabelle
  imports Main "HOL-Library.AList"
begin

section \<open>Cell values and records\<close>

text \<open>
  \<^verbatim>\<open>CellValue = string | number | boolean | Date\<close>. The code never computes with a cell
  value, it only compares it with \<^verbatim>\<open>''\<close> and \<^verbatim>\<open>null\<close> and serialises it, so a number is
  an integer here and a \<^verbatim>\<open>Date\<close> is represented by the timestamp text that its
  \<^verbatim>\<open>toISOString()\<close> returns (which determines a valid date). \<^verbatim>\<open>NaN\<close>, the infinities,
  fractions and invalid dates are outside the model.
\<close>

datatype CellValue = Str string | Num int | Bool bool | Date string

text \<open>
  What reading a property of a record can give: \<^verbatim>\<open>undefined\<close> (the property is absent),
  \<^verbatim>\<open>null\<close>, or a cell value. \<^verbatim>\<open>RowRecordValue = CellValue | null\<close> are the last two.
\<close>

datatype JsValue = Undefined | Null | Val CellValue

text \<open>\<^verbatim>\<open>RowRecord = Record<string, RowRecordValue>\<close>: a property that is absent reads as
  \<^verbatim>\<open>undefined\<close>; \<^verbatim>\<open>{}\<close> is the record with no property.\<close>

type_synonym RowRecord = "string \<Rightarrow> JsValue"

definition emptyRecord :: RowRecord where
  "emptyRecord = (\<lambda>_. Undefined)"

text \<open>\<^verbatim>\<open>v == null\<close> holds of \<^verbatim>\<open>null\<close> and of \<^verbatim>\<open>undefined\<close>.\<close>

fun isNullish :: "JsValue \<Rightarrow> bool" where
  "isNullish Undefined = True"
| "isNullish Null = True"
| "isNullish (Val v) = False"

text \<open>\<^verbatim>\<open>cellVal == null ? '' : cellVal\<close>, the encoding of one field for the grid.\<close>

fun encodeCell :: "JsValue \<Rightarrow> CellValue" where
  "encodeCell (Val v) = v"
| "encodeCell Null = Str []"
| "encodeCell Undefined = Str []"

text \<open>\<^verbatim>\<open>Array.from(new Set(xs))\<close>: the distinct elements in order of first occurrence.\<close>

definition uniq :: "'a list \<Rightarrow> 'a list" where
  "uniq xs = foldl (\<lambda>res x. if x \<in> set res then res else res @ [x]) [] xs"

text \<open>\<^verbatim>\<open>xs[i]\<close> of a JavaScript array: \<^verbatim>\<open>undefined\<close> out of range.\<close>

definition at :: "'a list \<Rightarrow> nat \<Rightarrow> 'a option" where
  "at xs i = (if i < length xs then Some (xs ! i) else None)"

section \<open>\<^verbatim>\<open>JSON.stringify\<close> of an array of key values\<close>

text \<open>
  The index key of a row is \<^verbatim>\<open>JSON.stringify(keyValues)\<close>. For an array, ECMAScript writes
  \<^verbatim>\<open>[\<close>, the elements separated by commas, \<^verbatim>\<open>]\<close>; an element that is \<^verbatim>\<open>null\<close> or
  \<^verbatim>\<open>undefined\<close> is written \<^verbatim>\<open>null\<close>, a boolean \<^verbatim>\<open>true\<close> or \<^verbatim>\<open>false\<close>, a number in decimal,
  a string between double quotes with the escapes of \<^verbatim>\<open>QuoteJSONString\<close>, and a \<^verbatim>\<open>Date\<close>
  as the quoted string that its \<^verbatim>\<open>toJSON()\<close>, that is \<^verbatim>\<open>toISOString()\<close>, returns.
\<close>

definition hexDigit :: "nat \<Rightarrow> char" where
  "hexDigit n = ''0123456789abcdef'' ! n"

definition escapeChar :: "char \<Rightarrow> string" where
  "escapeChar c =
     (if c = CHR 0x22 then [CHR 0x5C, CHR 0x22]
      else if c = CHR 0x5C then [CHR 0x5C, CHR 0x5C]
      else if c = CHR 0x08 then [CHR 0x5C, CHR ''b'']
      else if c = CHR 0x0C then [CHR 0x5C, CHR ''f'']
      else if c = CHR 0x0A then [CHR 0x5C, CHR ''n'']
      else if c = CHR 0x0D then [CHR 0x5C, CHR ''r'']
      else if c = CHR 0x09 then [CHR 0x5C, CHR ''t'']
      else if (of_char c :: nat) < 32
        then [CHR 0x5C, CHR ''u'', CHR ''0'', CHR ''0'',
              hexDigit (of_char c div 16), hexDigit (of_char c mod 16)]
      else [c])"

definition QuoteJSONString :: "string \<Rightarrow> string" where
  "QuoteJSONString s = CHR 0x22 # concat (map escapeChar s) @ [CHR 0x22]"

definition digitChar :: "nat \<Rightarrow> char" where
  "digitChar n = ''0123456789'' ! n"

fun natToString :: "nat \<Rightarrow> string" where
  "natToString n =
     (if n < 10 then [digitChar n]
      else natToString (n div 10) @ [digitChar (n mod 10)])"

declare natToString.simps [simp del]

definition NumberToString :: "int \<Rightarrow> string" where
  "NumberToString i =
     (if i < 0 then CHR ''-'' # natToString (nat (- i)) else natToString (nat i))"

fun SerializeJSONProperty :: "JsValue \<Rightarrow> string" where
  "SerializeJSONProperty Undefined = ''null''"
| "SerializeJSONProperty Null = ''null''"
| "SerializeJSONProperty (Val (Str s)) = QuoteJSONString s"
| "SerializeJSONProperty (Val (Num n)) = NumberToString n"
| "SerializeJSONProperty (Val (Bool b)) = (if b then ''true'' else ''false'')"
| "SerializeJSONProperty (Val (Date d)) = QuoteJSONString d"

fun joinComma :: "string list \<Rightarrow> string" where
  "joinComma [] = []"
| "joinComma [x] = x"
| "joinComma (x # y # ys) = x @ '','' @ joinComma (y # ys)"

definition JSON_stringify :: "JsValue list \<Rightarrow> string" where
  "JSON_stringify xs = ''['' @ joinComma (map SerializeJSONProperty xs) @ '']''"








section \<open>The grid: sheets and ranges of the spreadsheet service\<close>

text \<open>
  The grid is the Apps Script spreadsheet service, which the repository only calls. A sheet
  is a grid of \<open>maxRows\<close> by \<open>maxColumns\<close> cells, addressed from 1, an empty cell reading
  as \<^verbatim>\<open>''\<close>. As the service documents them: \<^verbatim>\<open>getLastRow()\<close> and \<^verbatim>\<open>getLastColumn()\<close> are
  the positions of the last row and column that have content (0 on a blank sheet);
  \<^verbatim>\<open>getRange(row, column, numRows, numColumns)\<close> throws unless all four are at least 1;
  \<^verbatim>\<open>setValues\<close> writes the block of the range, the sheet growing by blank rows and columns
  when the range ends beyond it; \<^verbatim>\<open>offset\<close> and \<^verbatim>\<open>getCell\<close> are relative to the range's
  first cell. Nobody else edits the sheet between two calls (section 5 of the
  specification).
\<close>

record Sheet =
  frozenRows :: nat
  maxRows :: nat
  maxColumns :: nat
  cells :: "nat \<Rightarrow> nat \<Rightarrow> CellValue"

definition getCellValue :: "Sheet \<Rightarrow> nat \<Rightarrow> nat \<Rightarrow> CellValue" where
  "getCellValue s r c =
     (if 1 \<le> r \<and> r \<le> maxRows s \<and> 1 \<le> c \<and> c \<le> maxColumns s then cells s r c else Str [])"

text \<open>The greatest position up to \<open>n\<close> that satisfies \<open>P\<close>, 0 when there is none.\<close>

fun lastPosition :: "(nat \<Rightarrow> bool) \<Rightarrow> nat \<Rightarrow> nat" where
  "lastPosition P 0 = 0"
| "lastPosition P (Suc n) = (if P (Suc n) then Suc n else lastPosition P n)"

definition rowHasContent :: "Sheet \<Rightarrow> nat \<Rightarrow> bool" where
  "rowHasContent s r = (\<exists>c \<in> set [1..<Suc (maxColumns s)]. getCellValue s r c \<noteq> Str [])"

definition columnHasContent :: "Sheet \<Rightarrow> nat \<Rightarrow> bool" where
  "columnHasContent s c = (\<exists>r \<in> set [1..<Suc (maxRows s)]. getCellValue s r c \<noteq> Str [])"

definition getLastRow :: "Sheet \<Rightarrow> nat" where
  "getLastRow s = lastPosition (rowHasContent s) (maxRows s)"

definition getLastColumn :: "Sheet \<Rightarrow> nat" where
  "getLastColumn s = lastPosition (columnHasContent s) (maxColumns s)"

record Range =
  rangeRow :: nat
  rangeColumn :: nat
  numRows :: nat
  numColumns :: nat

text \<open>\<^verbatim>\<open>sheet.getRange(row, column, numRows, numColumns)\<close>; \<open>None\<close> is the exception.\<close>

definition Sheet_getRange :: "nat \<Rightarrow> nat \<Rightarrow> nat \<Rightarrow> nat \<Rightarrow> Range option" where
  "Sheet_getRange row column nRows nColumns =
     (if row < 1 \<or> column < 1 \<or> nRows < 1 \<or> nColumns < 1 then None
      else Some \<lparr>rangeRow = row, rangeColumn = column, numRows = nRows, numColumns = nColumns\<rparr>)"

definition Range_getLastRow :: "Range \<Rightarrow> nat" where
  "Range_getLastRow rg = rangeRow rg + numRows rg - 1"

definition Range_getLastColumn :: "Range \<Rightarrow> nat" where
  "Range_getLastColumn rg = rangeColumn rg + numColumns rg - 1"

definition Range_offset :: "Range \<Rightarrow> nat \<Rightarrow> nat \<Rightarrow> nat \<Rightarrow> nat \<Rightarrow> Range" where
  "Range_offset rg rowOffset columnOffset nRows nColumns =
     \<lparr>rangeRow = rangeRow rg + rowOffset, rangeColumn = rangeColumn rg + columnOffset,
      numRows = nRows, numColumns = nColumns\<rparr>"

definition Range_getCell :: "Range \<Rightarrow> nat \<Rightarrow> nat \<Rightarrow> Range" where
  "Range_getCell rg row column =
     \<lparr>rangeRow = rangeRow rg + row - 1, rangeColumn = rangeColumn rg + column - 1,
      numRows = 1, numColumns = 1\<rparr>"

definition inRange :: "Range \<Rightarrow> nat \<Rightarrow> nat \<Rightarrow> bool" where
  "inRange rg r c =
     (rangeRow rg \<le> r \<and> r < rangeRow rg + numRows rg \<and>
      rangeColumn rg \<le> c \<and> c < rangeColumn rg + numColumns rg)"

definition Range_getValues :: "Sheet \<Rightarrow> Range \<Rightarrow> CellValue list list" where
  "Range_getValues s rg =
     map (\<lambda>r. map (\<lambda>c. getCellValue s r c) [rangeColumn rg..<rangeColumn rg + numColumns rg])
       [rangeRow rg..<rangeRow rg + numRows rg]"

definition Range_setValues :: "Sheet \<Rightarrow> Range \<Rightarrow> CellValue list list \<Rightarrow> Sheet" where
  "Range_setValues s rg values =
     s\<lparr>maxRows := max (maxRows s) (Range_getLastRow rg),
       maxColumns := max (maxColumns s) (Range_getLastColumn rg),
       cells := (\<lambda>r c. if inRange rg r c then values ! (r - rangeRow rg) ! (c - rangeColumn rg)
                       else getCellValue s r c)\<rparr>"

definition Range_setValue :: "Sheet \<Rightarrow> Range \<Rightarrow> CellValue \<Rightarrow> Sheet" where
  "Range_setValue s cell v = Range_setValues s cell [[v]]"

type_synonym Spreadsheet = "string \<Rightarrow> Sheet option"

section \<open>Errors\<close>

text \<open>
  Every \<^verbatim>\<open>throw\<close> of the source is a value here; the constructors are named after what the
  message says and carry the line numbers and header names that the message interpolates.
  \<open>TypeError\<close> is the runtime's own error for reading a property of \<^verbatim>\<open>undefined\<close>.
\<close>

datatype error =
    SheetNotExist string
  | HeaderNotFrozen
  | MultiRowHeader
  | SheetNotFilled
  | GetRangeError nat nat
  | EmptyHeader
  | NonStringHeader
  | DuplicateHeader
  | MissingMandatoryHeaders "string list"
  | KeyHeadersNotSet
  | DuplicateKey nat nat
  | HeaderNotFound string
  | NotIndexed
  | KeyArityMismatch nat nat
  | TypeError

section \<open>\<^verbatim>\<open>SheetTable\<close> and \<^verbatim>\<open>SheetRow\<close>\<close>

record SheetTableOptions =
  mandatoryHeaders :: "string list option"
  keyHeaders :: "string list option"

text \<open>A \<^verbatim>\<open>SheetRow\<close> object; \<^verbatim>\<open>sheetTable\<close> and \<^verbatim>\<open>changeHook\<close> are the table that holds it and
  that table's \<^verbatim>\<open>attachRow\<close>.\<close>

record SheetRow =
  rowRecord :: RowRecord
  rowLine :: nat

text \<open>
  The state of a \<^verbatim>\<open>SheetTable\<close>. \<^verbatim>\<open>SheetRow\<close> objects are mutable and are held by reference
  in \<^verbatim>\<open>rows\<close> and \<^verbatim>\<open>rowByKeyMap\<close>: \<open>rowObjects\<close> is the store of the row objects created so
  far and a reference is a position in it. \<open>rows\<close> is the \<^verbatim>\<open>Set\<close> in insertion order,
  \<open>headerColumn\<close> the \<^verbatim>\<open>Map\<close> in insertion order, \<open>sheetRange\<close> the field \<^verbatim>\<open>range\<close> (\<open>None\<close>
  is \<^verbatim>\<open>null\<close>) and \<open>sheet\<close> the sheet with its present content. The identity-keyed
  \<^verbatim>\<open>rowByRecordWeakMap\<close> is only read by \<^verbatim>\<open>getRowByRecord\<close> and is left out.
\<close>

record SheetTable =
  sheetName :: string
  options :: SheetTableOptions
  sheet :: Sheet
  lastRow :: nat
  sheetRange :: "Range option"
  headerColumn :: "(string \<times> nat) list"
  headers :: "string list"
  rowByKeyMap :: "string \<Rightarrow> nat option"
  rows :: "nat list"
  rowObjects :: "SheetRow list"

text \<open>\<^verbatim>\<open>options.keyHeaders?.length\<close> as a condition, and \<^verbatim>\<open>options.keyHeaders\<close> where it is set.\<close>

definition hasKeyHeaders :: "SheetTableOptions \<Rightarrow> bool" where
  "hasKeyHeaders opts = (case keyHeaders opts of None \<Rightarrow> False | Some ks \<Rightarrow> ks \<noteq> [])"

definition theKeyHeaders :: "SheetTableOptions \<Rightarrow> string list" where
  "theKeyHeaders opts = (case keyHeaders opts of None \<Rightarrow> [] | Some ks \<Rightarrow> ks)"

definition indexed :: "SheetTable \<Rightarrow> bool" where
  "indexed t = hasKeyHeaders (options t)"

datatype RecordOrValues = OfRecord RowRecord | OfValues "JsValue list"

definition getRecordHash :: "SheetTable \<Rightarrow> RecordOrValues \<Rightarrow> error + string" where
  "getRecordHash t record =
     (if \<not> hasKeyHeaders (options t) then Inl KeyHeadersNotSet
      else
        let keyValues =
          (case record of
             OfValues vs \<Rightarrow> vs
           | OfRecord r \<Rightarrow> foldl (\<lambda>res h. res @ [r h]) [] (theKeyHeaders (options t)))
        in Inr (JSON_stringify keyValues))"

definition attachRow :: "SheetTable \<Rightarrow> nat \<Rightarrow> (error + unit) \<times> SheetTable" where
  "attachRow t row =
     (let record = rowRecord (rowObjects t ! row);
          isNewRow = (row \<notin> set (rows t));
          t1 = (if isNewRow then t\<lparr>rows := rows t @ [row]\<rparr> else t)
      in
        if hasKeyHeaders (options t1) then
          if list_all (\<lambda>h. isNullish (record h)) (theKeyHeaders (options t1)) then (Inr (), t1)
          else
            (case getRecordHash t1 (OfRecord record) of
               Inl e \<Rightarrow> (Inl e, t1)
             | Inr recHash \<Rightarrow>
                 if isNewRow \<and> rowByKeyMap t1 recHash \<noteq> None
                 then (let existRow = the (rowByKeyMap t1 recHash)
                       in (Inl (DuplicateKey (rowLine (rowObjects t1 ! existRow))
                                   (rowLine (rowObjects t1 ! row))), t1))
                 else (Inr (), t1\<lparr>rowByKeyMap := (rowByKeyMap t1)(recHash \<mapsto> row)\<rparr>))
        else (Inr (), t1))"

text \<open>\<^verbatim>\<open>new SheetRow(table, record, line, row => table.attachRow(row))\<close>: the object is
  created and its constructor calls the hook on it.\<close>

definition SheetRow_new :: "SheetTable \<Rightarrow> RowRecord \<Rightarrow> nat \<Rightarrow> (error + nat) \<times> SheetTable" where
  "SheetRow_new t record line =
     (let row = length (rowObjects t);
          t1 = t\<lparr>rowObjects := rowObjects t @ [\<lparr>rowRecord = record, rowLine = line\<rparr>]\<rparr>
      in case attachRow t1 row of
           (Inl e, t2) \<Rightarrow> (Inl e, t2)
         | (Inr u, t2) \<Rightarrow> (Inr row, t2))"

text \<open>\<^verbatim>\<open>records.map((it, index) => new SheetRow(this, it, lastRow + index + 1, ...))\<close>, from
  position \<open>index\<close> on; an exception ends the loop.\<close>

fun mapRecords :: "SheetTable \<Rightarrow> nat \<Rightarrow> nat \<Rightarrow> RowRecord list \<Rightarrow> (error + nat list) \<times> SheetTable" where
  "mapRecords t lastRow0 index [] = (Inr [], t)"
| "mapRecords t lastRow0 index (it # records) =
     (case SheetRow_new t it (lastRow0 + index + 1) of
        (Inl e, t1) \<Rightarrow> (Inl e, t1)
      | (Inr row, t1) \<Rightarrow>
          (case mapRecords t1 lastRow0 (index + 1) records of
             (Inl e, t2) \<Rightarrow> (Inl e, t2)
           | (Inr newRows, t2) \<Rightarrow> (Inr (row # newRows), t2)))"

definition createInternalRows :: "SheetTable \<Rightarrow> RowRecord list \<Rightarrow> nat \<Rightarrow> (error + nat list) \<times> SheetTable" where
  "createInternalRows t records lastRow0 = mapRecords t lastRow0 0 records"

definition getValues :: "SheetTable \<Rightarrow> RowRecord \<Rightarrow> CellValue list" where
  "getValues t record = map (\<lambda>h. encodeCell (record h)) (headers t)"

definition getSheetRange :: "SheetTable \<Rightarrow> bool \<Rightarrow> (error + Range) \<times> SheetTable" where
  "getSheetRange t forceUpdate =
     (case (if forceUpdate then None else sheetRange t) of
        Some rg \<Rightarrow> (Inr rg, t)
      | None \<Rightarrow>
          (let lastRow0 = getLastRow (sheet t);
               lastColumn = getLastColumn (sheet t)
           in case Sheet_getRange 1 1 lastRow0 lastColumn of
                None \<Rightarrow> (Inl (GetRangeError lastRow0 lastColumn), t)
              | Some rg \<Rightarrow> (Inr rg, t\<lparr>sheetRange := Some rg\<rparr>)))"

definition getHeaderColumn :: "SheetTable \<Rightarrow> string \<Rightarrow> error + nat" where
  "getHeaderColumn t headerName =
     (case map_of (headerColumn t) headerName of
        Some column \<Rightarrow> Inr column
      | None \<Rightarrow> Inl (HeaderNotFound headerName))"



definition getRows :: "SheetTable \<Rightarrow> nat list" where
  "getRows t = rows t"

definition addRecords :: "SheetTable \<Rightarrow> RowRecord list \<Rightarrow> (error + nat list) \<times> SheetTable" where
  "addRecords t records =
     (let values = map (getValues t) records
      in case getSheetRange t False of
           (Inl e, t0) \<Rightarrow> (Inl e, t0)
         | (Inr rg, t0) \<Rightarrow>
             (let lastRow0 = Range_getLastRow rg
              in case values of
                   [] \<Rightarrow> (Inl TypeError, t0)
                 | v0 # vs \<Rightarrow>
                     (let t1 = t0\<lparr>sheet := Range_setValues (sheet t0)
                                  (Range_offset rg (lastRow t0) 0 (length values) (length v0)) values\<rparr>
                      in case getSheetRange t1 True of
                           (Inl e, t2) \<Rightarrow> (Inl e, t2)
                         | (Inr rg2, t2) \<Rightarrow>
                             createInternalRows (t2\<lparr>lastRow := Range_getLastRow rg2\<rparr>)
                               records lastRow0)))"

text \<open>The methods of \<^verbatim>\<open>SheetRow\<close>, on the row object \<open>row\<close> of the table \<open>t\<close>.\<close>

definition getRecord :: "SheetTable \<Rightarrow> nat \<Rightarrow> RowRecord" where
  "getRecord t row = rowRecord (rowObjects t ! row)"

definition getLine :: "SheetTable \<Rightarrow> nat \<Rightarrow> nat" where
  "getLine t row = rowLine (rowObjects t ! row)"


definition getCell :: "SheetTable \<Rightarrow> nat \<Rightarrow> string \<Rightarrow> (error + Range) \<times> SheetTable" where
  "getCell t row headerName =
     (case getSheetRange t False of
        (Inl e, t0) \<Rightarrow> (Inl e, t0)
      | (Inr rg, t0) \<Rightarrow>
          (case getHeaderColumn t0 headerName of
             Inl e \<Rightarrow> (Inl e, t0)
           | Inr column \<Rightarrow> (Inr (Range_getCell rg (getLine t0 row) column), t0)))"

definition setValue :: "SheetTable \<Rightarrow> nat \<Rightarrow> string \<Rightarrow> JsValue \<Rightarrow> (error + unit) \<times> SheetTable" where
  "setValue t row header val =
     (case getCell t row header of
        (Inl e, t0) \<Rightarrow> (Inl e, t0)
      | (Inr cell, t0) \<Rightarrow>
          (let t1 = t0\<lparr>sheet := Range_setValue (sheet t0) cell (encodeCell val)\<rparr>;
               old = rowObjects t1 ! row;
               t2 = t1\<lparr>rowObjects := (rowObjects t1)
                          [row := old\<lparr>rowRecord := (rowRecord old)(header := val)\<rparr>]\<rparr>
           in attachRow t2 row))"

text \<open>
  The constructor of \<^verbatim>\<open>SheetTable\<close>. Its blocks are the definitions \<open>headerTest\<close> (the
  region "Header test"), \<open>newHeaderColumn\<close> (the \<^verbatim>\<open>reduce\<close> that fills \<^verbatim>\<open>headerColumn\<close>),
  \<open>checkMandatoryHeaders\<close> (the block "Check for mandatory headers") and \<open>decodeRow\<close> (the
  body of the loop that turns the rows of the sheet into records).
\<close>

fun isString :: "CellValue \<Rightarrow> bool" where
  "isString (Str s) = True"
| "isString v = False"

text \<open>A header as a property name. The header test has rejected every header that is
  not a string before a header is used as a name.\<close>

fun headerName :: "CellValue \<Rightarrow> string" where
  "headerName (Str s) = s"
| "headerName v = []"

definition headerTest :: "CellValue list \<Rightarrow> error option" where
  "headerTest hs =
     (if \<exists>h \<in> set hs. h = Str [] then Some EmptyHeader
      else if \<exists>h \<in> set hs. \<not> isString h then Some NonStringHeader
      else if length hs \<noteq> length (uniq hs) then Some DuplicateHeader
      else None)"

definition newHeaderColumn :: "string list \<Rightarrow> (string \<times> nat) list" where
  "newHeaderColumn hs =
     foldl (\<lambda>res (h, index). AList.update h (index + 1) res) [] (zip hs [0..<length hs])"

text \<open>\<^verbatim>\<open>Array.from(options.mandatoryHeaders ?? [])\<close>; \<^verbatim>\<open>options.mandatoryHeaders?.size\<close> as a
  condition says that this list is not empty.\<close>

definition theMandatoryHeaders :: "SheetTableOptions \<Rightarrow> string list" where
  "theMandatoryHeaders opts = (case mandatoryHeaders opts of None \<Rightarrow> [] | Some m \<Rightarrow> m)"

definition checkMandatoryHeaders :: "SheetTableOptions \<Rightarrow> (string \<times> nat) list \<Rightarrow> error option" where
  "checkMandatoryHeaders opts hc =
     (if theMandatoryHeaders opts \<noteq> [] \<or> hasKeyHeaders opts
      then
        let keyHs = theKeyHeaders opts;
            mandatoryHs = theMandatoryHeaders opts;
            allMandatoryHeaders = uniq (keyHs @ mandatoryHs);
            lostHeaders = filter (\<lambda>h. map_of hc h = None) allMandatoryHeaders
        in if lostHeaders \<noteq> [] then Some (MissingMandatoryHeaders lostHeaders) else None
      else None)"

definition decodeRow :: "(string \<times> nat) list \<Rightarrow> CellValue list \<Rightarrow> RowRecord" where
  "decodeRow hc sheetRowValues =
     foldl (\<lambda>rowRecord key.
              let val = (case at sheetRowValues (the (map_of hc key) - 1) of
                           None \<Rightarrow> Null
                         | Some v \<Rightarrow> Val v)
              in rowRecord(key := (if val = Val (Str []) then Null else val)))
       emptyRecord (map fst hc)"

text \<open>The outcome of \<^verbatim>\<open>new SheetTable(sheetName, options)\<close>: the table, or the error thrown
  together with the row objects that had been created by then.\<close>

datatype Construction = Failed error "SheetRow list" | Constructed SheetTable

definition SheetTable_new :: "Spreadsheet \<Rightarrow> string \<Rightarrow> SheetTableOptions \<Rightarrow> Construction" where
  "SheetTable_new spreadsheet name opts =
     (case spreadsheet name of
        None \<Rightarrow> Failed (SheetNotExist name) []
      | Some sh \<Rightarrow>
          (let this0 = \<lparr>sheetName = name, options = opts, sheet = sh, lastRow = 0,
                        sheetRange = None, headerColumn = [], headers = [],
                        rowByKeyMap = Map.empty, rows = [], rowObjects = []\<rparr>
           in
             if frozenRows sh = 0 then Failed HeaderNotFrozen []
             else if frozenRows sh > 1 then Failed MultiRowHeader []
             else
               (case getSheetRange this0 True of
                  (Inl e, this1) \<Rightarrow> Failed e []
                | (Inr rg, this1) \<Rightarrow>
                    (let lastRow0 = Range_getLastRow rg;
                         lastColumn = Range_getLastColumn rg;
                         this2 = this1\<lparr>lastRow := lastRow0\<rparr>
                     in
                       if lastRow0 = 0 \<or> lastColumn = 0 then Failed SheetNotFilled []
                       else
                         (case Range_getValues sh rg of
                            [] \<Rightarrow> Failed TypeError []
                          | hdr # sheetValues \<Rightarrow>
                              (case headerTest hdr of
                                 Some e \<Rightarrow> Failed e []
                               | None \<Rightarrow>
                                   (let hs = map headerName hdr;
                                        hc = newHeaderColumn hs;
                                        this3 = this2\<lparr>headers := hs, headerColumn := hc\<rparr>
                                    in case checkMandatoryHeaders opts hc of
                                         Some e \<Rightarrow> Failed e []
                                       | None \<Rightarrow>
                                           (case createInternalRows this3
                                                   (map (decodeRow hc) sheetValues) 1 of
                                              (Inl e, this4) \<Rightarrow> Failed e (rowObjects this4)
                                            | (Inr newRows, this4) \<Rightarrow> Constructed this4))))))))"

section \<open>\<^verbatim>\<open>SheetObject\<close>, the first variant of the store\<close>

text \<open>
  Of the first variant only \<^verbatim>\<open>addRows\<close> and what it calls are needed. A \<^verbatim>\<open>SheetRowObj\<close> is a
  record with the two symbol-keyed properties \<^verbatim>\<open>[LineSymbol]\<close> and \<^verbatim>\<open>[IndexSymbol]\<close>; a
  \<^verbatim>\<open>RowObject\<close> wraps one and is never changed after its creation, so the index holds the
  objects themselves. \<open>obj_sheet\<close> is the sheet of \<^verbatim>\<open>this.range\<close>. The key of the index is
  what \<^verbatim>\<open>JSON.stringify\<close> returns, which is \<^verbatim>\<open>undefined\<close> (\<open>None\<close>) when \<^verbatim>\<open>keyHeaders\<close> is
  not set.
\<close>

record SheetRowObj =
  rowObj :: RowRecord
  lineSymbol :: nat
  indexSymbol :: nat

record RowObject =
  obj_row :: SheetRowObj

record SheetObject =
  obj_keyHeaders :: "string list option"
  rowsByKeysMap :: "string option \<Rightarrow> RowObject option"
  header :: "string list"
  headerColMap :: "(string \<times> nat) list"
  obj_lastRow :: nat
  obj_sheetName :: string
  obj_range :: Range
  obj_rows :: "RowObject list"
  obj_sheet :: Sheet

definition getRowKey :: "SheetObject \<Rightarrow> RowObject \<Rightarrow> string option" where
  "getRowKey so r =
     (case obj_keyHeaders so of
        None \<Rightarrow> None
      | Some ks \<Rightarrow> Some (JSON_stringify (foldl (\<lambda>res h. res @ [rowObj (obj_row r) h]) [] ks)))"

definition addToIndex :: "SheetObject \<Rightarrow> RowObject \<Rightarrow> error + SheetObject" where
  "addToIndex so r =
     (let rowKey = getRowKey so r
      in case rowsByKeysMap so rowKey of
           Some existRow \<Rightarrow>
             Inl (DuplicateKey (lineSymbol (obj_row existRow)) (lineSymbol (obj_row r)))
         | None \<Rightarrow> Inr (so\<lparr>rowsByKeysMap := (rowsByKeysMap so)(rowKey \<mapsto> r)\<rparr>))"

definition obj_indexed :: "SheetObject \<Rightarrow> bool" where
  "obj_indexed so = (case obj_keyHeaders so of None \<Rightarrow> False | Some ks \<Rightarrow> ks \<noteq> [])"

text \<open>\<^verbatim>\<open>rowObjects.forEach(rowObject => this.addToIndex(rowObject))\<close>.\<close>

fun forEachAddToIndex :: "SheetObject \<Rightarrow> RowObject list \<Rightarrow> (error + unit) \<times> SheetObject" where
  "forEachAddToIndex so [] = (Inr (), so)"
| "forEachAddToIndex so (r # rs) =
     (case addToIndex so r of
        Inl e \<Rightarrow> (Inl e, so)
      | Inr so1 \<Rightarrow> forEachAddToIndex so1 rs)"

definition addRows :: "SheetObject \<Rightarrow> RowRecord list \<Rightarrow> (error + RowObject list) \<times> SheetObject" where
  "addRows so rws =
     (let values = map (\<lambda>rw. map (\<lambda>h. encodeCell (rw h)) (header so)) rws;
          startRow = obj_lastRow so
      in case values of
           [] \<Rightarrow> (Inl TypeError, so)
         | v0 # vs \<Rightarrow>
             (let so1 = so\<lparr>obj_sheet := Range_setValues (obj_sheet so)
                            (Range_offset (obj_range so) startRow 0 (length values) (length v0))
                            values\<rparr>;
                  so2 = so1\<lparr>obj_lastRow := obj_lastRow so1 + length values\<rparr>;
                  rowObjects0 = map (\<lambda>(rw, index).
                      \<lparr>obj_row = \<lparr>rowObj = rw, lineSymbol = startRow + index + 1,
                                  indexSymbol = startRow + index\<rparr>\<rparr>)
                    (zip rws [0..<length rws]);
                  so3 = so2\<lparr>obj_rows := obj_rows so2 @ rowObjects0\<rparr>
              in if obj_indexed so3
                 then (case forEachAddToIndex so3 rowObjects0 of
                         (Inl e, so4) \<Rightarrow> (Inl e, so4)
                       | (Inr u, so4) \<Rightarrow> (Inr rowObjects0, so4))
                 else (Inr rowObjects0, so3)))"

section \<open>The stores that a program can hold\<close>

text \<open>
  A \<^verbatim>\<open>SheetTable\<close> comes from its constructor and is then changed by \<^verbatim>\<open>addRecords\<close> and by
  \<^verbatim>\<open>setValue\<close> on one of its rows; the object stays in the state in which a failed call
  leaves it.
\<close>

inductive reachable :: "SheetTable \<Rightarrow> bool" where
  constructed: "SheetTable_new spreadsheet name opts = Constructed t \<Longrightarrow> reachable t"
| added: "reachable t \<Longrightarrow> addRecords t records = (res, t') \<Longrightarrow> reachable t'"
| updated: "reachable t \<Longrightarrow> r \<in> set (rows t) \<Longrightarrow> setValue t r h v = (res, t') \<Longrightarrow> reachable t'"

text \<open>The values of the key fields of a record, in the configured order.\<close>

definition keyValues :: "SheetTable \<Rightarrow> RowRecord \<Rightarrow> JsValue list" where
  "keyValues t r = map r (theKeyHeaders (options t))"

text \<open>The facts that every such store satisfies.\<close>

definition rangeInv :: "SheetTable \<Rightarrow> bool" where
  "rangeInv t =
     (case sheetRange t of
        None \<Rightarrow> False
      | Some rg \<Rightarrow> rangeRow rg = 1 \<and> rangeColumn rg = 1 \<and> numRows rg = lastRow t \<and>
                   1 \<le> numRows rg \<and> 1 \<le> numColumns rg)"

definition headerInv :: "SheetTable \<Rightarrow> bool" where
  "headerInv t =
     (headers t \<noteq> [] \<and> distinct (headers t) \<and>
      headerColumn t = zip (headers t) [1..<Suc (length (headers t))])"

definition rowsInv :: "SheetTable \<Rightarrow> bool" where
  "rowsInv t = (distinct (rows t) \<and> set (rows t) = {0..<length (rowObjects t)})"

definition indexInv :: "SheetTable \<Rightarrow> bool" where
  "indexInv t =
     (\<forall>k r. rowByKeyMap t k = Some r \<longrightarrow>
        r \<in> set (rows t) \<and>
        (\<exists>vs. k = JSON_stringify vs \<and> length vs = length (theKeyHeaders (options t)) \<and>
              \<not> list_all isNullish vs))"

definition tableInv :: "SheetTable \<Rightarrow> bool" where
  "tableInv t = (rangeInv t \<and> headerInv t \<and> rowsInv t \<and> indexInv t)"

section \<open>A sheet and a table for the examples\<close>

definition sheetOfRows :: "CellValue list list \<Rightarrow> nat \<Rightarrow> Sheet" where
  "sheetOfRows rws nColumns =
     \<lparr>frozenRows = 1, maxRows = length rws, maxColumns = nColumns,
      cells = (\<lambda>r c. case at rws (r - 1) of
                        None \<Rightarrow> Str []
                      | Some rw \<Rightarrow> (case at rw (c - 1) of None \<Rightarrow> Str [] | Some v \<Rightarrow> v))\<rparr>"

definition exSheet :: Sheet where
  "exSheet =
     sheetOfRows [[Str ''id'', Str ''name''], [Num 1, Str ''a''], [Num 2, Str ''b'']] 2"

definition exSpreadsheet :: Spreadsheet where
  "exSpreadsheet = (\<lambda>n. if n = ''data'' then Some exSheet else None)"

definition exOptions :: SheetTableOptions where
  "exOptions = \<lparr>mandatoryHeaders = None, keyHeaders = Some [''id'']\<rparr>"

fun theTable :: "Construction \<Rightarrow> SheetTable option" where
  "theTable (Constructed t) = Some t"
| "theTable (Failed e created) = None"

definition exTable :: SheetTable where
  "exTable = the (theTable (SheetTable_new exSpreadsheet ''data'' exOptions))"

section \<open>Auxiliary notions for the proofs\<close>

text \<open>
  \<open>sameStore\<close>: two states of a table differ at most in the row set, the row objects and
  the index. \<open>newObjects l rs\<close>: the row objects that \<^verbatim>\<open>createInternalRows(rs, l)\<close> creates.
  \<open>writtenSheet\<close>: the sheet after the write of \<^verbatim>\<open>addRecords\<close>. \<open>updatedTable\<close>: the table in
  \<^verbatim>\<open>setValue\<close> after the cell and the record are written and before the hook runs.
  \<open>headerRow\<close>, \<open>dataRows\<close>: the first row and the other rows of the occupied rectangle.
  \<open>loadedTable\<close>: the table under construction once the header is accepted, before the row
  objects are created.
\<close>

definition sameStore :: "SheetTable \<Rightarrow> SheetTable \<Rightarrow> bool" where
  "sameStore t t' =
     (sheet t' = sheet t \<and> lastRow t' = lastRow t \<and> sheetRange t' = sheetRange t \<and>
      options t' = options t \<and> headers t' = headers t \<and> headerColumn t' = headerColumn t \<and>
      sheetName t' = sheetName t)"

fun newObjects :: "nat \<Rightarrow> RowRecord list \<Rightarrow> SheetRow list" where
  "newObjects l [] = []"
| "newObjects l (r # rs) = \<lparr>rowRecord = r, rowLine = l + 1\<rparr> # newObjects (Suc l) rs"

definition writtenSheet :: "SheetTable \<Rightarrow> RowRecord list \<Rightarrow> Sheet" where
  "writtenSheet t records =
     Range_setValues (sheet t)
       \<lparr>rangeRow = 1 + lastRow t, rangeColumn = 1, numRows = length records,
        numColumns = length (headers t)\<rparr>
       (map (getValues t) records)"

definition updatedTable :: "SheetTable \<Rightarrow> nat \<Rightarrow> string \<Rightarrow> nat \<Rightarrow> JsValue \<Rightarrow> SheetTable" where
  "updatedTable t row h column v =
     t\<lparr>sheet := Range_setValue (sheet t)
                  \<lparr>rangeRow = rowLine (rowObjects t ! row), rangeColumn = column,
                   numRows = 1, numColumns = 1\<rparr> (encodeCell v),
       rowObjects := (rowObjects t)
          [row := (rowObjects t ! row)\<lparr>rowRecord := (rowRecord (rowObjects t ! row))(h := v)\<rparr>]\<rparr>"

definition headerRow :: "Sheet \<Rightarrow> CellValue list" where
  "headerRow sh = map (\<lambda>c. getCellValue sh 1 c) [1..<Suc (getLastColumn sh)]"


definition dataRows :: "Sheet \<Rightarrow> CellValue list list" where
  "dataRows sh =
     map (\<lambda>r. map (\<lambda>c. getCellValue sh r c) [1..<Suc (getLastColumn sh)]) [2..<Suc (getLastRow sh)]"


definition loadedTable :: "string \<Rightarrow> SheetTableOptions \<Rightarrow> Sheet \<Rightarrow> SheetTable" where
  "loadedTable name opts sh =
     \<lparr>sheetName = name, options = opts, sheet = sh, lastRow = getLastRow sh,
      sheetRange = Some \<lparr>rangeRow = 1, rangeColumn = 1, numRows = getLastRow sh,
                          numColumns = getLastColumn sh\<rparr>,
      headerColumn = newHeaderColumn (map headerName (headerRow sh)),
      headers = map headerName (headerRow sh),
      rowByKeyMap = Map.empty, rows = [], rowObjects = []\<rparr>"






definition exObject :: SheetObject where
  "exObject =
     \<lparr>obj_keyHeaders = Some [''id''], rowsByKeysMap = Map.empty, header = [''id'', ''name''],
      headerColMap = [(''id'', 0), (''name'', 1)], obj_lastRow = 3, obj_sheetName = ''data'',
      obj_range = \<lparr>rangeRow = 1, rangeColumn = 1, numRows = 3, numColumns = 2\<rparr>,
      obj_rows = [], obj_sheet = exSheet\<rparr>"

definition exRecordDup :: RowRecord where
  "exRecordDup = emptyRecord(''id'' := Val (Num 2), ''name'' := Val (Str ''c''))"

definition exUpdated :: SheetTable where
  "exUpdated = updatedTable exTable 1 ''id'' 1 (Val (Num 1))"

definition exRecord1 :: RowRecord where
  "exRecord1 = emptyRecord(''id'' := Val (Num 1), ''name'' := Val (Str ''d''))"




section \<open>The serialised key determines the key values up to \<open>jsonView\<close>\<close>































section \<open>The example table\<close>

lemma exTable_constructed: "SheetTable_new exSpreadsheet ''data'' exOptions = Constructed exTable"
proof -
  have "theTable (SheetTable_new exSpreadsheet ''data'' exOptions) \<noteq> None"
    by code_simp
  then show ?thesis
    unfolding exTable_def
    by (cases "SheetTable_new exSpreadsheet ''data'' exOptions") auto
qed

lemma exTable_reachable: "reachable exTable"
  using exTable_constructed by (rule reachable.constructed)

section \<open>The key of a record\<close>

lemma foldl_snoc_map: "foldl (\<lambda>res h. res @ [f h]) acc ks = acc @ map f ks"
  by (induction ks arbitrary: acc) simp_all





section \<open>Absorption, row creation and what every store satisfies\<close>

lemma attachRow_unindexed:
  "\<not> indexed t \<Longrightarrow>
   attachRow t row = (Inr (), if row \<in> set (rows t) then t else t\<lparr>rows := rows t @ [row]\<rparr>)"
  by (simp add: attachRow_def indexed_def Let_def)

lemma attachRow_null_key:
  "indexed t \<Longrightarrow> list_all isNullish (keyValues t (rowRecord (rowObjects t ! row))) \<Longrightarrow>
   attachRow t row = (Inr (), if row \<in> set (rows t) then t else t\<lparr>rows := rows t @ [row]\<rparr>)"
  by (simp add: attachRow_def indexed_def Let_def keyValues_def list_all_iff)

lemma attachRow_new_duplicate:
  "indexed t \<Longrightarrow> \<not> list_all isNullish (keyValues t (rowRecord (rowObjects t ! row))) \<Longrightarrow>
   row \<notin> set (rows t) \<Longrightarrow>
   rowByKeyMap t (JSON_stringify (keyValues t (rowRecord (rowObjects t ! row)))) = Some existRow \<Longrightarrow>
   attachRow t row =
     (Inl (DuplicateKey (rowLine (rowObjects t ! existRow)) (rowLine (rowObjects t ! row))),
      t\<lparr>rows := rows t @ [row]\<rparr>)"
  by (auto simp: attachRow_def indexed_def Let_def keyValues_def list_all_iff
      getRecordHash_def foldl_snoc_map)

lemma attachRow_new_fresh:
  "indexed t \<Longrightarrow> \<not> list_all isNullish (keyValues t (rowRecord (rowObjects t ! row))) \<Longrightarrow>
   row \<notin> set (rows t) \<Longrightarrow>
   rowByKeyMap t (JSON_stringify (keyValues t (rowRecord (rowObjects t ! row)))) = None \<Longrightarrow>
   attachRow t row =
     (Inr (), t\<lparr>rows := rows t @ [row],
                 rowByKeyMap := (rowByKeyMap t)
                   (JSON_stringify (keyValues t (rowRecord (rowObjects t ! row))) \<mapsto> row)\<rparr>)"
  by (auto simp: attachRow_def indexed_def Let_def keyValues_def list_all_iff
      getRecordHash_def foldl_snoc_map)

lemma attachRow_again:
  "indexed t \<Longrightarrow> \<not> list_all isNullish (keyValues t (rowRecord (rowObjects t ! row))) \<Longrightarrow>
   row \<in> set (rows t) \<Longrightarrow>
   attachRow t row =
     (Inr (), t\<lparr>rowByKeyMap := (rowByKeyMap t)
                   (JSON_stringify (keyValues t (rowRecord (rowObjects t ! row))) \<mapsto> row)\<rparr>)"
  by (auto simp: attachRow_def indexed_def Let_def keyValues_def list_all_iff
      getRecordHash_def foldl_snoc_map)

lemma attachRow_cases:
  obtains
    (plain) "attachRow t row = (Inr (), if row \<in> set (rows t) then t else t\<lparr>rows := rows t @ [row]\<rparr>)"
      "\<not> indexed t \<or> list_all isNullish (keyValues t (rowRecord (rowObjects t ! row)))"
  | (duplicate) existRow where "indexed t"
      "\<not> list_all isNullish (keyValues t (rowRecord (rowObjects t ! row)))"
      "row \<notin> set (rows t)"
      "rowByKeyMap t (JSON_stringify (keyValues t (rowRecord (rowObjects t ! row)))) = Some existRow"
      "attachRow t row =
        (Inl (DuplicateKey (rowLine (rowObjects t ! existRow)) (rowLine (rowObjects t ! row))),
         t\<lparr>rows := rows t @ [row]\<rparr>)"
  | (fresh) "indexed t"
      "\<not> list_all isNullish (keyValues t (rowRecord (rowObjects t ! row)))"
      "row \<notin> set (rows t)"
      "rowByKeyMap t (JSON_stringify (keyValues t (rowRecord (rowObjects t ! row)))) = None"
      "attachRow t row =
        (Inr (), t\<lparr>rows := rows t @ [row],
                 rowByKeyMap := (rowByKeyMap t)
                   (JSON_stringify (keyValues t (rowRecord (rowObjects t ! row))) \<mapsto> row)\<rparr>)"
  | (again) "indexed t"
      "\<not> list_all isNullish (keyValues t (rowRecord (rowObjects t ! row)))"
      "row \<in> set (rows t)"
      "attachRow t row =
        (Inr (), t\<lparr>rowByKeyMap := (rowByKeyMap t)
                   (JSON_stringify (keyValues t (rowRecord (rowObjects t ! row))) \<mapsto> row)\<rparr>)"
proof (cases "\<not> indexed t \<or> list_all isNullish (keyValues t (rowRecord (rowObjects t ! row)))")
  case True
  then show ?thesis using attachRow_unindexed [of t row] attachRow_null_key [of t row] plain by blast
next
  case False
  note nn = this
  show ?thesis
  proof (cases "row \<in> set (rows t)")
    case True
    with nn attachRow_again [of t row] again show ?thesis by blast
  next
    case False
    note new = this
    show ?thesis
    proof (cases "rowByKeyMap t (JSON_stringify (keyValues t (rowRecord (rowObjects t ! row))))")
      case None
      with nn new attachRow_new_fresh [of t row] fresh show ?thesis by blast
    next
      case (Some e)
      with nn new attachRow_new_duplicate [of t row e] duplicate show ?thesis by blast
    qed
  qed
qed

lemma attachRow_keeps:
  "sheet (snd (attachRow t row)) = sheet t \<and>
   lastRow (snd (attachRow t row)) = lastRow t \<and>
   sheetRange (snd (attachRow t row)) = sheetRange t \<and>
   options (snd (attachRow t row)) = options t \<and>
   headers (snd (attachRow t row)) = headers t \<and>
   headerColumn (snd (attachRow t row)) = headerColumn t \<and>
   rowObjects (snd (attachRow t row)) = rowObjects t \<and>
   sheetName (snd (attachRow t row)) = sheetName t"
  by (cases t row rule: attachRow_cases) simp_all

lemma attachRow_rows:
  "rows (snd (attachRow t row)) = (if row \<in> set (rows t) then rows t else rows t @ [row])"
  by (cases t row rule: attachRow_cases) (simp_all split: if_splits)

lemma attachRow_indexInv: "indexInv t \<Longrightarrow> indexInv (snd (attachRow t row))"
proof (cases t row rule: attachRow_cases)
  case plain
  assume "indexInv t"
  with plain(1) show ?thesis by (auto simp: indexInv_def split: if_splits)
next
  case (duplicate e)
  assume "indexInv t"
  with duplicate(5) show ?thesis by (auto simp: indexInv_def)
next
  case fresh
  assume "indexInv t"
  moreover have "length (keyValues t (rowRecord (rowObjects t ! row))) = length (theKeyHeaders (options t))"
    by (simp add: keyValues_def)
  ultimately show ?thesis using fresh(2,5) by (auto simp: indexInv_def)
next
  case again
  assume "indexInv t"
  moreover have "length (keyValues t (rowRecord (rowObjects t ! row))) = length (theKeyHeaders (options t))"
    by (simp add: keyValues_def)
  ultimately show ?thesis using again(2,3,4) by (auto simp: indexInv_def)
qed

lemma keyValues_cong:
  "options t' = options t \<Longrightarrow> keyValues t' r = keyValues t r"
  by (simp add: keyValues_def)

lemma indexed_cong: "options t' = options t \<Longrightarrow> indexed t' = indexed t"
  by (simp add: indexed_def)

lemma SheetRow_new_cases:
  assumes "length (rowObjects t) \<notin> set (rows t)"
  obtains
    (plain) "\<not> indexed t \<or> list_all isNullish (keyValues t rec0)"
      "SheetRow_new t rec0 line0 =
         (Inr (length (rowObjects t)),
          t\<lparr>rows := rows t @ [length (rowObjects t)],
            rowObjects := rowObjects t @ [\<lparr>rowRecord = rec0, rowLine = line0\<rparr>]\<rparr>)"
  | (duplicate) existRow where "indexed t" "\<not> list_all isNullish (keyValues t rec0)"
      "rowByKeyMap t (JSON_stringify (keyValues t rec0)) = Some existRow"
      "SheetRow_new t rec0 line0 =
         (Inl (DuplicateKey
                (rowLine ((rowObjects t @ [\<lparr>rowRecord = rec0, rowLine = line0\<rparr>]) ! existRow)) line0),
          t\<lparr>rows := rows t @ [length (rowObjects t)],
            rowObjects := rowObjects t @ [\<lparr>rowRecord = rec0, rowLine = line0\<rparr>]\<rparr>)"
  | (fresh) "indexed t" "\<not> list_all isNullish (keyValues t rec0)"
      "rowByKeyMap t (JSON_stringify (keyValues t rec0)) = None"
      "SheetRow_new t rec0 line0 =
         (Inr (length (rowObjects t)),
          t\<lparr>rowByKeyMap := (rowByKeyMap t)(JSON_stringify (keyValues t rec0) \<mapsto> length (rowObjects t)),
            rows := rows t @ [length (rowObjects t)],
            rowObjects := rowObjects t @ [\<lparr>rowRecord = rec0, rowLine = line0\<rparr>]\<rparr>)"
proof -
  let ?n = "length (rowObjects t)"
  let ?t1 = "t\<lparr>rowObjects := rowObjects t @ [\<lparr>rowRecord = rec0, rowLine = line0\<rparr>]\<rparr>"
  have new: "SheetRow_new t rec0 line0 =
      (case attachRow ?t1 ?n of (Inl e, t2) \<Rightarrow> (Inl e, t2) | (Inr u, t2) \<Rightarrow> (Inr ?n, t2))"
    by (simp add: SheetRow_new_def Let_def)
  have rec: "rowRecord (rowObjects ?t1 ! ?n) = rec0" "rowLine (rowObjects ?t1 ! ?n) = line0" by simp_all
  have kv: "keyValues ?t1 rec0 = keyValues t rec0" by (simp add: keyValues_def)
  have ix: "indexed ?t1 = indexed t" by (simp add: indexed_def)
  have nr: "?n \<notin> set (rows ?t1)" using assms by simp
  show ?thesis
  proof (cases ?t1 ?n rule: attachRow_cases)
    case plain
    with nr new rec kv ix show ?thesis using that(1) by simp
  next
    case (duplicate e)
    with nr new rec kv ix show ?thesis using that(2) [of e] by simp
  next
    case fresh
    with nr new rec kv ix show ?thesis using that(3) by simp
  next
    case again
    with nr show ?thesis by simp
  qed
qed

lemma length_newObjects [simp]: "length (newObjects l rs) = length rs"
  by (induction rs arbitrary: l) simp_all

lemma nth_newObjects:
  "j < length rs \<Longrightarrow> newObjects l rs ! j = \<lparr>rowRecord = rs ! j, rowLine = l + j + 1\<rparr>"
proof (induction rs arbitrary: l j)
  case Nil
  then show ?case by simp
next
  case (Cons r rs)
  then show ?case by (cases j) simp_all
qed

lemma sameStore_refl [simp]: "sameStore t t"
  by (simp add: sameStore_def)

lemma sameStore_trans: "sameStore t t1 \<Longrightarrow> sameStore t1 t2 \<Longrightarrow> sameStore t t2"
  by (simp add: sameStore_def)

lemma rowsInv_fresh: "rowsInv t \<Longrightarrow> length (rowObjects t) \<notin> set (rows t)"
  by (simp add: rowsInv_def)

lemma rangeInv_cong:
  "sameStore t t' \<Longrightarrow> rangeInv t \<Longrightarrow> rangeInv t'"
  by (auto simp: rangeInv_def sameStore_def split: option.splits)

lemma headerInv_cong:
  "sameStore t t' \<Longrightarrow> headerInv t \<Longrightarrow> headerInv t'"
  by (auto simp: headerInv_def sameStore_def)

lemma indexInv_same:
  "indexInv t \<Longrightarrow> options t' = options t \<Longrightarrow> set (rows t) \<subseteq> set (rows t') \<Longrightarrow>
   rowByKeyMap t' = rowByKeyMap t \<Longrightarrow> indexInv t'"
  unfolding indexInv_def by (metis subsetD)

lemma indexInv_upd:
  assumes "indexInv t" "options t' = options t" "set (rows t) \<subseteq> set (rows t')"
    "rowByKeyMap t' = (rowByKeyMap t)(JSON_stringify (keyValues t r) \<mapsto> row)"
    "row \<in> set (rows t')" "\<not> list_all isNullish (keyValues t r)"
  shows "indexInv t'"
  unfolding indexInv_def
proof (intro allI impI)
  fix k x
  assume kx: "rowByKeyMap t' k = Some x"
  show "x \<in> set (rows t') \<and>
      (\<exists>vs. k = JSON_stringify vs \<and> length vs = length (theKeyHeaders (options t')) \<and>
            \<not> list_all isNullish vs)"
  proof (cases "k = JSON_stringify (keyValues t r)")
    case True
    with kx assms(4) have "x = row" by simp
    moreover have "length (keyValues t r) = length (theKeyHeaders (options t'))"
      using assms(2) by (simp add: keyValues_def)
    ultimately show ?thesis using True assms(5,6) by blast
  next
    case False
    with kx assms(4) have "rowByKeyMap t k = Some x" by simp
    with assms(1) have "x \<in> set (rows t) \<and>
      (\<exists>vs. k = JSON_stringify vs \<and> length vs = length (theKeyHeaders (options t)) \<and>
            \<not> list_all isNullish vs)" unfolding indexInv_def by blast
    with assms(2,3) show ?thesis by auto
  qed
qed

lemma SheetRow_new_inv:
  assumes "tableInv t"
  shows "tableInv (snd (SheetRow_new t rec0 line0)) \<and> sameStore t (snd (SheetRow_new t rec0 line0))
    \<and> rowObjects (snd (SheetRow_new t rec0 line0)) = rowObjects t @ [\<lparr>rowRecord = rec0, rowLine = line0\<rparr>]
    \<and> rows (snd (SheetRow_new t rec0 line0)) = rows t @ [length (rowObjects t)]"
proof -
  let ?t' = "snd (SheetRow_new t rec0 line0)"
  from assms have ri: "rowsInv t" and ii: "indexInv t" and gi: "rangeInv t" and hi: "headerInv t"
    by (simp_all add: tableInv_def)
  have shape: "sameStore t ?t' \<and>
      rowObjects ?t' = rowObjects t @ [\<lparr>rowRecord = rec0, rowLine = line0\<rparr>] \<and>
      rows ?t' = rows t @ [length (rowObjects t)] \<and> indexInv ?t'"
  proof (rule SheetRow_new_cases [OF rowsInv_fresh [OF ri], where ?rec0.0 = rec0 and ?line0.0 = line0], goal_cases)
    case 1
    then show ?case using indexInv_same [OF ii, of ?t'] by (auto simp: sameStore_def)
  next
    case (2 e)
    then show ?case using indexInv_same [OF ii, of ?t'] by (auto simp: sameStore_def)
  next
    case 3
    then show ?case using indexInv_upd [OF ii, of ?t' rec0 "length (rowObjects t)"]
      by (auto simp: sameStore_def)
  qed
  moreover from shape ri have "rowsInv ?t'" by (auto simp: rowsInv_def)
  moreover from shape gi have "rangeInv ?t'" using rangeInv_cong by blast
  moreover from shape hi have "headerInv ?t'" using headerInv_cong by blast
  ultimately show ?thesis by (simp add: tableInv_def)
qed


lemma SheetRow_new_Inl:
  assumes "tableInv t" "SheetRow_new t rec0 line0 = (Inl e, t')"
  shows "indexed t \<and> \<not> list_all isNullish (keyValues t rec0) \<and>
    (\<exists>x. x < length (rowObjects t) \<and> rowByKeyMap t (JSON_stringify (keyValues t rec0)) = Some x \<and>
         e = DuplicateKey (rowLine (rowObjects t ! x)) line0) \<and>
    rowByKeyMap t' = rowByKeyMap t \<and> (\<forall>k. rowByKeyMap t' k \<noteq> Some (length (rowObjects t)))"
proof -
  from assms(1) have ri: "rowsInv t" and ii: "indexInv t" by (simp_all add: tableInv_def)
  have bound: "x < length (rowObjects t)" if "rowByKeyMap t k = Some x" for k x
    using that ii ri by (auto simp: indexInv_def rowsInv_def)
  show ?thesis
  proof (rule SheetRow_new_cases [OF rowsInv_fresh [OF ri], where ?rec0.0 = rec0 and ?line0.0 = line0], goal_cases)
    case 1
    with assms(2) show ?case by simp
  next
    case (2 x)
    from bound [OF 2(3)] have xl: "x < length (rowObjects t)" .
    from 2(4) assms(2) have e: "e = DuplicateKey (rowLine ((rowObjects t @ [\<lparr>rowRecord = rec0, rowLine = line0\<rparr>]) ! x)) line0"
      and t': "t' = t\<lparr>rows := rows t @ [length (rowObjects t)],
            rowObjects := rowObjects t @ [\<lparr>rowRecord = rec0, rowLine = line0\<rparr>]\<rparr>" by simp_all
    from e xl have "e = DuplicateKey (rowLine (rowObjects t ! x)) line0" by (simp add: nth_append)
    moreover from t' have "rowByKeyMap t' = rowByKeyMap t" by simp
    moreover have "\<forall>k. rowByKeyMap t k \<noteq> Some (length (rowObjects t))" using bound by fastforce
    ultimately show ?case using 2(1,2,3) xl by auto
  next
    case 3
    with assms(2) show ?case by simp
  qed
qed

lemma mapRecords_inv:
  "tableInv t \<Longrightarrow> tableInv (snd (mapRecords t l i recs)) \<and> sameStore t (snd (mapRecords t l i recs))"
proof (induction recs arbitrary: t i)
  case Nil
  then show ?case by simp
next
  case (Cons r recs)
  let ?n = "SheetRow_new t r (l + i + 1)"
  from SheetRow_new_inv [OF Cons.prems, of r "l + i + 1"]
  have inv1: "tableInv (snd ?n)" and same1: "sameStore t (snd ?n)" by simp_all
  show ?case
  proof (cases ?n)
    case (Pair res t1)
    with inv1 same1 have i1: "tableInv t1" and s1: "sameStore t t1" by simp_all
    show ?thesis
    proof (cases res)
      case (Inl e)
      with Pair i1 s1 show ?thesis by simp
    next
      case (Inr row)
      from Cons.IH [OF i1, of "i + 1"] s1 sameStore_trans [OF s1]
      have "tableInv (snd (mapRecords t1 l (i + 1) recs)) \<and> sameStore t (snd (mapRecords t1 l (i + 1) recs))"
        by blast
      with Pair Inr show ?thesis by (auto split: prod.splits sum.splits)
    qed
  qed
qed


lemma mapRecords_Inl:
  "tableInv t \<Longrightarrow> mapRecords t l i recs = (Inl e, t') \<Longrightarrow>
   \<exists>j < length recs.
     rowObjects t' = rowObjects t @ newObjects (l + i) (take (Suc j) recs) \<and>
     rows t' = rows t @ [length (rowObjects t)..<length (rowObjects t) + Suc j] \<and>
     indexed t \<and> \<not> list_all isNullish (keyValues t (recs ! j)) \<and>
     (\<exists>x. x < length (rowObjects t) + j \<and>
          rowByKeyMap t' (JSON_stringify (keyValues t (recs ! j))) = Some x \<and>
          e = DuplicateKey (rowLine (rowObjects t' ! x)) (l + i + j + 1)) \<and>
     (\<forall>k. rowByKeyMap t' k \<noteq> Some (length (rowObjects t) + j))"
proof (induction recs arbitrary: t i)
  case Nil
  then show ?case by simp
next
  case (Cons r recs)
  let ?n = "length (rowObjects t)"
  from SheetRow_new_inv [OF Cons.prems(1), of r "l + i + 1"]
  have inv: "tableInv (snd (SheetRow_new t r (l + i + 1)))"
    and same: "sameStore t (snd (SheetRow_new t r (l + i + 1)))"
    and objs: "rowObjects (snd (SheetRow_new t r (l + i + 1))) = rowObjects t @ [\<lparr>rowRecord = r, rowLine = l + i + 1\<rparr>]"
    and rws: "rows (snd (SheetRow_new t r (l + i + 1))) = rows t @ [?n]" by simp_all
  show ?case
  proof (cases "SheetRow_new t r (l + i + 1)")
    case (Pair res t1)
    with inv same objs rws have i1: "tableInv t1" and s1: "sameStore t t1"
      and o1: "rowObjects t1 = rowObjects t @ [\<lparr>rowRecord = r, rowLine = l + i + 1\<rparr>]"
      and r1: "rows t1 = rows t @ [?n]" by simp_all
    show ?thesis
    proof (cases res)
      case (Inl e1)
      with Pair Cons.prems(2) have e: "e1 = e" and t': "t1 = t'" by simp_all
      from SheetRow_new_Inl [OF Cons.prems(1), of r "l + i + 1" e t'] Pair Inl e t'
      obtain x where x: "indexed t" "\<not> list_all isNullish (keyValues t r)" "x < ?n"
        "rowByKeyMap t (JSON_stringify (keyValues t r)) = Some x"
        "e = DuplicateKey (rowLine (rowObjects t ! x)) (l + i + 1)"
        "rowByKeyMap t' = rowByKeyMap t" "\<forall>k. rowByKeyMap t' k \<noteq> Some ?n"
        by auto
      from x(3) o1 t' have "rowObjects t' ! x = rowObjects t ! x" by (simp add: nth_append)
      with x o1 r1 t' have
        "rowObjects t' = rowObjects t @ newObjects (l + i) (take (Suc 0) (r # recs)) \<and>
         rows t' = rows t @ [?n..<?n + Suc 0] \<and>
         indexed t \<and> \<not> list_all isNullish (keyValues t ((r # recs) ! 0)) \<and>
         (\<exists>x. x < ?n + 0 \<and>
            rowByKeyMap t' (JSON_stringify (keyValues t ((r # recs) ! 0))) = Some x \<and>
            e = DuplicateKey (rowLine (rowObjects t' ! x)) (l + i + 0 + 1)) \<and>
         (\<forall>k. rowByKeyMap t' k \<noteq> Some (?n + 0))"
        by auto
      moreover have "0 < length (r # recs)" by simp
      ultimately show ?thesis by blast
    next
      case (Inr row)
      with Pair Cons.prems(2) have m: "mapRecords t1 l (i + 1) recs = (Inl e, t')"
        by (auto split: prod.splits sum.splits)
      from Cons.IH [OF i1 m] obtain j where j: "j < length recs"
        "rowObjects t' = rowObjects t1 @ newObjects (l + (i + 1)) (take (Suc j) recs)"
        "rows t' = rows t1 @ [length (rowObjects t1)..<length (rowObjects t1) + Suc j]"
        "indexed t1" "\<not> list_all isNullish (keyValues t1 (recs ! j))"
        "\<exists>x. x < length (rowObjects t1) + j \<and>
          rowByKeyMap t' (JSON_stringify (keyValues t1 (recs ! j))) = Some x \<and>
          e = DuplicateKey (rowLine (rowObjects t' ! x)) (l + (i + 1) + j + 1)"
        "\<forall>k. rowByKeyMap t' k \<noteq> Some (length (rowObjects t1) + j)"
        by blast
      from s1 have opt: "options t1 = options t" by (simp add: sameStore_def)
      have kv: "keyValues t1 = keyValues t" using opt by (simp add: keyValues_def fun_eq_iff)
      have ix: "indexed t1 = indexed t" using opt by (simp add: indexed_def)
      have up: "[?n..<?n + Suc (Suc j)] = ?n # [Suc ?n..<Suc ?n + Suc j]"
        by (subst upt_rec) simp
      have len1: "length (rowObjects t1) = Suc ?n" using o1 by simp
      have "rowObjects t' = rowObjects t @ newObjects (l + i) (take (Suc (Suc j)) (r # recs))"
        using j(2) o1 by simp
      moreover have "rows t' = rows t @ [?n..<?n + Suc (Suc j)]"
        using j(3) r1 len1 by (simp only: up) simp
      moreover have "indexed t" "\<not> list_all isNullish (keyValues t ((r # recs) ! Suc j))"
        using j(4,5) kv ix by simp_all
      moreover have "\<exists>x. x < ?n + Suc j \<and>
          rowByKeyMap t' (JSON_stringify (keyValues t ((r # recs) ! Suc j))) = Some x \<and>
          e = DuplicateKey (rowLine (rowObjects t' ! x)) (l + i + Suc j + 1)"
        using j(6) kv len1 by simp
      moreover have "\<forall>k. rowByKeyMap t' k \<noteq> Some (?n + Suc j)"
        using j(7) len1 by simp
      moreover have "Suc j < length (r # recs)" using j(1) by simp
      ultimately show ?thesis by blast
    qed
  qed
qed

lemma getSheetRange_cached:
  "sheetRange t = Some rg \<Longrightarrow> getSheetRange t False = (Inr rg, t)"
  by (simp add: getSheetRange_def)

lemma getSheetRange_forced:
  "getSheetRange t True =
     (if getLastRow (sheet t) = 0 \<or> getLastColumn (sheet t) = 0
      then (Inl (GetRangeError (getLastRow (sheet t)) (getLastColumn (sheet t))), t)
      else (Inr \<lparr>rangeRow = 1, rangeColumn = 1, numRows = getLastRow (sheet t),
                 numColumns = getLastColumn (sheet t)\<rparr>,
            t\<lparr>sheetRange := Some \<lparr>rangeRow = 1, rangeColumn = 1, numRows = getLastRow (sheet t),
                 numColumns = getLastColumn (sheet t)\<rparr>\<rparr>))"
  by (simp add: getSheetRange_def Sheet_getRange_def Let_def)

lemma addRecords_unfold:
  assumes "rangeInv t" "records \<noteq> []"
  shows "addRecords t records =
     (if getLastRow (writtenSheet t records) = 0 \<or> getLastColumn (writtenSheet t records) = 0
      then (Inl (GetRangeError (getLastRow (writtenSheet t records))
                   (getLastColumn (writtenSheet t records))),
            t\<lparr>sheet := writtenSheet t records\<rparr>)
      else createInternalRows
             (t\<lparr>sheet := writtenSheet t records,
                sheetRange := Some \<lparr>rangeRow = 1, rangeColumn = 1,
                   numRows = getLastRow (writtenSheet t records),
                   numColumns = getLastColumn (writtenSheet t records)\<rparr>,
                lastRow := getLastRow (writtenSheet t records)\<rparr>)
             records (lastRow t))"
proof -
  from assms(1) obtain rg where rg: "sheetRange t = Some rg" "rangeRow rg = 1" "rangeColumn rg = 1"
    "numRows rg = lastRow t" by (auto simp: rangeInv_def split: option.splits)
  from assms(2) obtain r rs where recs: "records = r # rs" by (cases records) auto
  have off: "Range_offset rg (lastRow t) 0 (length records) (length (getValues t r)) =
      \<lparr>rangeRow = 1 + lastRow t, rangeColumn = 1, numRows = length records,
        numColumns = length (headers t)\<rparr>"
    using rg by (simp add: Range_offset_def getValues_def)
  have lr: "Range_getLastRow rg = lastRow t" using rg by (simp add: Range_getLastRow_def)
  show ?thesis
    unfolding addRecords_def getSheetRange_cached [OF rg(1)] Let_def
    using off lr recs
    by (simp add: getSheetRange_forced writtenSheet_def Range_getLastRow_def)
qed

lemma addRecords_empty:
  "sheetRange t = Some rg \<Longrightarrow> addRecords t [] = (Inl TypeError, t)"
  by (simp add: addRecords_def getSheetRange_cached)

lemma getCell_unfold:
  assumes "rangeInv t"
  shows "getCell t row h =
     (case map_of (headerColumn t) h of
        None \<Rightarrow> (Inl (HeaderNotFound h), t)
      | Some column \<Rightarrow>
          (Inr \<lparr>rangeRow = rowLine (rowObjects t ! row), rangeColumn = column,
                 numRows = 1, numColumns = 1\<rparr>, t))"
proof -
  from assms obtain rg where rg: "sheetRange t = Some rg" "rangeRow rg = 1" "rangeColumn rg = 1"
    by (auto simp: rangeInv_def split: option.splits)
  show ?thesis
    unfolding getCell_def getSheetRange_cached [OF rg(1)]
    using rg(2,3)
    by (simp add: getHeaderColumn_def Range_getCell_def getLine_def split: option.splits)
qed

lemma setValue_unfold:
  assumes "rangeInv t"
  shows "setValue t row h v =
     (case map_of (headerColumn t) h of
        None \<Rightarrow> (Inl (HeaderNotFound h), t)
      | Some column \<Rightarrow> attachRow (updatedTable t row h column v) row)"
  by (simp add: setValue_def getCell_unfold [OF assms] updatedTable_def Let_def split: option.splits)

lemma attachRow_inv:
  assumes "tableInv t" "row \<in> set (rows t)"
  shows "tableInv (snd (attachRow t row))"
proof -
  let ?t' = "snd (attachRow t row)"
  from attachRow_keeps [of t row] have same: "sameStore t ?t'" and objs: "rowObjects ?t' = rowObjects t"
    by (simp_all add: sameStore_def)
  from attachRow_rows [of t row] assms(2) have rws: "rows ?t' = rows t" by simp
  from assms(1) have "rowsInv t" "rangeInv t" "headerInv t" "indexInv t" by (simp_all add: tableInv_def)
  with same objs rws attachRow_indexInv [of t row] rangeInv_cong [OF same] headerInv_cong [OF same]
  show ?thesis by (simp add: tableInv_def rowsInv_def)
qed

lemma tableInv_cong:
  assumes "tableInv t" "sheetRange t' = sheetRange t" "lastRow t' = lastRow t"
    "headers t' = headers t" "headerColumn t' = headerColumn t" "rows t' = rows t"
    "rowByKeyMap t' = rowByKeyMap t" "options t' = options t"
    "length (rowObjects t') = length (rowObjects t)"
  shows "tableInv t'"
proof -
  from assms have "rangeInv t'" by (auto simp: tableInv_def rangeInv_def split: option.splits)
  moreover from assms have "headerInv t'" by (auto simp: tableInv_def headerInv_def)
  moreover from assms have "rowsInv t'" by (auto simp: tableInv_def rowsInv_def)
  moreover from assms have "indexInv t'" by (simp add: tableInv_def indexInv_def)
  ultimately show ?thesis by (simp add: tableInv_def)
qed

lemma updatedTable_inv:
  assumes "tableInv t"
  shows "tableInv (updatedTable t row h column v)"
  by (rule tableInv_cong [OF assms]) (simp_all add: updatedTable_def)

lemma setValue_inv:
  assumes "tableInv t" "row \<in> set (rows t)"
  shows "tableInv (snd (setValue t row h v))"
proof -
  from assms(1) have gi: "rangeInv t" by (simp add: tableInv_def)
  show ?thesis
  proof (cases "map_of (headerColumn t) h")
    case None
    with assms(1) show ?thesis by (simp add: setValue_unfold [OF gi])
  next
    case (Some column)
    have "row \<in> set (rows (updatedTable t row h column v))" using assms(2) by (simp add: updatedTable_def)
    from attachRow_inv [OF updatedTable_inv [OF assms(1)] this] Some
    show ?thesis by (simp add: setValue_unfold [OF gi])
  qed
qed

lemma addRecords_inv:
  assumes "tableInv t"
  shows "tableInv (snd (addRecords t records))"
proof (cases "records = []")
  case True
  from assms obtain rg where "sheetRange t = Some rg"
    by (auto simp: tableInv_def rangeInv_def split: option.splits)
  with True assms show ?thesis by (simp add: addRecords_empty)
next
  case False
  from assms have gi: "rangeInv t" by (simp add: tableInv_def)
  let ?s = "writtenSheet t records"
  show ?thesis
  proof (cases "getLastRow ?s = 0 \<or> getLastColumn ?s = 0")
    case True
    have "tableInv (t\<lparr>sheet := ?s\<rparr>)"
      by (rule tableInv_cong [OF assms]) simp_all
    with True show ?thesis by (simp add: addRecords_unfold [OF gi False])
  next
    case False
    note content = this
    let ?t1 = "t\<lparr>sheet := ?s,
        sheetRange := Some \<lparr>rangeRow = 1, rangeColumn = 1, numRows = getLastRow ?s,
                             numColumns = getLastColumn ?s\<rparr>,
        lastRow := getLastRow ?s\<rparr>"
    have "tableInv ?t1" using assms content
      by (auto simp: tableInv_def rangeInv_def headerInv_def rowsInv_def indexInv_def)
    from mapRecords_inv [OF this, of "lastRow t" 0 records] content
    show ?thesis by (simp add: addRecords_unfold [OF gi \<open>records \<noteq> []\<close>] createInternalRows_def)
  qed
qed

lemma uniq_foldl:
  "distinct acc \<Longrightarrow>
   distinct (foldl (\<lambda>res x. if x \<in> set res then res else res @ [x]) acc xs) \<and>
   set (foldl (\<lambda>res x. if x \<in> set res then res else res @ [x]) acc xs) = set acc \<union> set xs"
proof (induction xs arbitrary: acc)
  case Nil
  then show ?case by simp
next
  case (Cons x xs)
  show ?case
  proof (cases "x \<in> set acc")
    case True
    with Cons.IH [OF Cons.prems] show ?thesis by auto
  next
    case False
    with Cons.prems have "distinct (acc @ [x])" by simp
    from Cons.IH [OF this] False show ?thesis by auto
  qed
qed

lemma distinct_uniq: "distinct (uniq xs)"
  using uniq_foldl [of "[]" xs] by (simp add: uniq_def)

lemma set_uniq: "set (uniq xs) = set xs"
  using uniq_foldl [of "[]" xs] by (simp add: uniq_def)

lemma length_uniq_iff: "length xs \<noteq> length (uniq xs) \<longleftrightarrow> \<not> distinct xs"
proof -
  have "card (set (uniq xs)) = length (uniq xs)"
    by (rule distinct_card) (rule distinct_uniq)
  then have "length (uniq xs) = card (set xs)" by (simp add: set_uniq)
  then show ?thesis by (metis card_distinct distinct_card)
qed


lemma update_fresh: "k \<notin> fst ` set al \<Longrightarrow> AList.update k v al = al @ [(k, v)]"
  by (induction al) auto


lemma headerColumn_foldl:
  "distinct hs \<Longrightarrow> set hs \<inter> fst ` set acc = {} \<Longrightarrow>
   foldl (\<lambda>res (h, index). AList.update h (index + 1) res) acc (zip hs [i..<i + length hs])
     = acc @ zip hs [Suc i..<Suc i + length hs]"
proof (induction hs arbitrary: acc i)
  case Nil
  then show ?case by simp
next
  case (Cons h hs)
  have up: "[i..<i + length (h # hs)] = i # [Suc i..<Suc i + length hs]"
    by (subst upt_rec) simp
  have up2: "[Suc i..<Suc i + length (h # hs)] = Suc i # [Suc (Suc i)..<Suc (Suc i) + length hs]"
    by (subst upt_rec) simp
  from Cons.prems have fresh: "h \<notin> fst ` set acc" by auto
  from Cons.prems have d: "distinct hs" and
    disj: "set hs \<inter> fst ` set (acc @ [(h, Suc i)]) = {}" by auto
  show ?case
    unfolding up up2
    using Cons.IH [OF d disj, of "Suc i"] by (simp add: update_fresh [OF fresh])
qed


lemma newHeaderColumn_distinct:
  "distinct hs \<Longrightarrow> newHeaderColumn hs = zip hs [1..<Suc (length hs)]"
  using headerColumn_foldl [of hs "[]" 0] by (simp add: newHeaderColumn_def)


lemma headerTest_None:
  "headerTest hdr = None \<longleftrightarrow>
     Str [] \<notin> set hdr \<and> (\<forall>h \<in> set hdr. isString h) \<and> distinct hdr"
  using length_uniq_iff [of hdr] by (auto simp: headerTest_def)


lemma headerName_inj: "isString a \<Longrightarrow> isString b \<Longrightarrow> headerName a = headerName b \<Longrightarrow> a = b"
  by (cases a; cases b) simp_all


lemma distinct_headerNames:
  "\<forall>h \<in> set hdr. isString h \<Longrightarrow> distinct hdr \<Longrightarrow> distinct (map headerName hdr)"
  by (simp add: distinct_map inj_on_def headerName_inj)


lemma getValues_whole:
  assumes "getLastRow sh \<noteq> 0"
  shows "Range_getValues sh \<lparr>rangeRow = Suc 0, rangeColumn = Suc 0, numRows = getLastRow sh,
            numColumns = getLastColumn sh\<rparr> = headerRow sh # dataRows sh"
proof -
  have "[Suc 0..<Suc (getLastRow sh)] = Suc 0 # [2..<Suc (getLastRow sh)]"
    using assms by (subst upt_rec) (simp add: numeral_2_eq_2)
  then show ?thesis by (simp add: Range_getValues_def headerRow_def dataRows_def)
qed

lemma SheetTable_new_unfold:
  assumes "spreadsheet name = Some sh" "frozenRows sh = 1"
    "getLastRow sh \<noteq> 0" "getLastColumn sh \<noteq> 0"
  shows "SheetTable_new spreadsheet name opts =
     (case headerTest (headerRow sh) of
        Some e \<Rightarrow> Failed e []
      | None \<Rightarrow>
          (case checkMandatoryHeaders opts (newHeaderColumn (map headerName (headerRow sh))) of
             Some e \<Rightarrow> Failed e []
           | None \<Rightarrow>
               (case createInternalRows (loadedTable name opts sh)
                       (map (decodeRow (newHeaderColumn (map headerName (headerRow sh)))) (dataRows sh)) 1 of
                  (Inl e, this4) \<Rightarrow> Failed e (rowObjects this4)
                | (Inr newRows, this4) \<Rightarrow> Constructed this4)))"
  using assms
  by (simp add: SheetTable_new_def getSheetRange_forced Range_getLastRow_def Range_getLastColumn_def
      getValues_whole loadedTable_def Let_def split: option.splits)

lemma SheetTable_new_no_sheet:
  "spreadsheet name = None \<Longrightarrow> SheetTable_new spreadsheet name opts = Failed (SheetNotExist name) []"
  by (simp add: SheetTable_new_def)

lemma SheetTable_new_frozen:
  "spreadsheet name = Some sh \<Longrightarrow> frozenRows sh \<noteq> 1 \<Longrightarrow>
   SheetTable_new spreadsheet name opts =
     Failed (if frozenRows sh = 0 then HeaderNotFrozen else MultiRowHeader) []"
  by (simp add: SheetTable_new_def Let_def)

lemma SheetTable_new_blank:
  "spreadsheet name = Some sh \<Longrightarrow> frozenRows sh = 1 \<Longrightarrow>
   getLastRow sh = 0 \<or> getLastColumn sh = 0 \<Longrightarrow>
   SheetTable_new spreadsheet name opts =
     Failed (GetRangeError (getLastRow sh) (getLastColumn sh)) []"
  by (auto simp: SheetTable_new_def Let_def getSheetRange_forced)

lemma SheetTable_new_Constructed:
  assumes "SheetTable_new spreadsheet name opts = Constructed t"
  obtains sh newRows where "spreadsheet name = Some sh" "frozenRows sh = 1"
    "getLastRow sh \<noteq> 0" "getLastColumn sh \<noteq> 0"
    "headerTest (headerRow sh) = None"
    "checkMandatoryHeaders opts (newHeaderColumn (map headerName (headerRow sh))) = None"
    "createInternalRows (loadedTable name opts sh)
       (map (decodeRow (newHeaderColumn (map headerName (headerRow sh)))) (dataRows sh)) 1
     = (Inr newRows, t)"
proof -
  from assms SheetTable_new_no_sheet [of spreadsheet name opts]
  obtain sh where sh: "spreadsheet name = Some sh" by (cases "spreadsheet name") auto
  from assms sh SheetTable_new_frozen [of spreadsheet name sh opts] have fr: "frozenRows sh = 1" by auto
  have nb: "\<not> (getLastRow sh = 0 \<or> getLastColumn sh = 0)"
  proof
    assume "getLastRow sh = 0 \<or> getLastColumn sh = 0"
    with sh fr have "SheetTable_new spreadsheet name opts =
        Failed (GetRangeError (getLastRow sh) (getLastColumn sh)) []"
      by (rule SheetTable_new_blank)
    with assms show False by simp
  qed
  then have lr: "getLastRow sh \<noteq> 0" and lc: "getLastColumn sh \<noteq> 0" by simp_all
  from sh fr lr lc have u: "SheetTable_new spreadsheet name opts =
     (case headerTest (headerRow sh) of
        Some e \<Rightarrow> Failed e []
      | None \<Rightarrow>
          (case checkMandatoryHeaders opts (newHeaderColumn (map headerName (headerRow sh))) of
             Some e \<Rightarrow> Failed e []
           | None \<Rightarrow>
               (case createInternalRows (loadedTable name opts sh)
                       (map (decodeRow (newHeaderColumn (map headerName (headerRow sh)))) (dataRows sh)) 1 of
                  (Inl e, this4) \<Rightarrow> Failed e (rowObjects this4)
                | (Inr newRows, this4) \<Rightarrow> Constructed this4)))"
    by (rule SheetTable_new_unfold)
  from assms u have ht: "headerTest (headerRow sh) = None"
    by (cases "headerTest (headerRow sh)") auto
  from assms u ht have cm: "checkMandatoryHeaders opts (newHeaderColumn (map headerName (headerRow sh))) = None"
    by (cases "checkMandatoryHeaders opts (newHeaderColumn (map headerName (headerRow sh)))") auto
  from assms u ht cm obtain newRows where
    "createInternalRows (loadedTable name opts sh)
       (map (decodeRow (newHeaderColumn (map headerName (headerRow sh)))) (dataRows sh)) 1
     = (Inr newRows, t)"
    by (auto split: prod.splits sum.splits)
  with sh fr lr lc ht cm show ?thesis using that by blast
qed

lemma length_headerRow: "length (headerRow sh) = getLastColumn sh"
  by (simp add: headerRow_def)

lemma loadedTable_inv:
  assumes "getLastRow sh \<noteq> 0" "getLastColumn sh \<noteq> 0" "headerTest (headerRow sh) = None"
  shows "tableInv (loadedTable name opts sh)"
proof -
  from assms(3) have str: "\<forall>h \<in> set (headerRow sh). isString h" and d: "distinct (headerRow sh)"
    by (simp_all add: headerTest_None)
  have dh: "distinct (map headerName (headerRow sh))" using distinct_headerNames [OF str d] .
  have ne: "map headerName (headerRow sh) \<noteq> []"
    using assms(2) length_headerRow [of sh] by auto
  have "rangeInv (loadedTable name opts sh)"
    using assms(1,2) by (simp add: rangeInv_def loadedTable_def)
  moreover have "headerInv (loadedTable name opts sh)"
    using dh ne newHeaderColumn_distinct [OF dh] by (simp add: headerInv_def loadedTable_def)
  moreover have "rowsInv (loadedTable name opts sh)" by (simp add: rowsInv_def loadedTable_def)
  moreover have "indexInv (loadedTable name opts sh)" by (simp add: indexInv_def loadedTable_def)
  ultimately show ?thesis by (simp add: tableInv_def)
qed

lemma constructed_inv:
  assumes "SheetTable_new spreadsheet name opts = Constructed t"
  shows "tableInv t"
proof -
  from assms obtain sh newRows where c: "getLastRow sh \<noteq> 0" "getLastColumn sh \<noteq> 0"
    "headerTest (headerRow sh) = None"
    "createInternalRows (loadedTable name opts sh)
       (map (decodeRow (newHeaderColumn (map headerName (headerRow sh)))) (dataRows sh)) 1
     = (Inr newRows, t)"
    by (rule SheetTable_new_Constructed)
  from mapRecords_inv [OF loadedTable_inv [OF c(1,2,3), of name opts], of 1 0
      "map (decodeRow (newHeaderColumn (map headerName (headerRow sh)))) (dataRows sh)"] c(4)
  show ?thesis by (simp add: createInternalRows_def)
qed

lemma reachable_inv: "reachable t \<Longrightarrow> tableInv t"
proof (induction rule: reachable.induct)
  case (constructed spreadsheet name opts t)
  then show ?case by (rule constructed_inv)
next
  case (added t records res t')
  from addRecords_inv [OF added.IH, of records] added.hyps(2) show ?case by simp
next
  case (updated t r h v res t')
  from setValue_inv [OF updated.IH updated.hyps(2), of h v] updated.hyps(3) show ?case by simp
qed

section \<open>Reading the sheet after a write\<close>









lemma getCellValue_setValues:
  assumes "1 \<le> rangeRow rg" "1 \<le> rangeColumn rg"
  shows "getCellValue (Range_setValues s rg values) r c =
     (if inRange rg r c then values ! (r - rangeRow rg) ! (c - rangeColumn rg)
      else getCellValue s r c)"
proof (cases "inRange rg r c")
  case True
  with assms have "1 \<le> r" "1 \<le> c" "r \<le> Range_getLastRow rg" "c \<le> Range_getLastColumn rg"
    by (auto simp: inRange_def Range_getLastRow_def Range_getLastColumn_def)
  then have "r \<le> max (maxRows s) (Range_getLastRow rg)"
    "c \<le> max (maxColumns s) (Range_getLastColumn rg)" by simp_all
  with True \<open>1 \<le> r\<close> \<open>1 \<le> c\<close> show ?thesis by (simp add: getCellValue_def Range_setValues_def)
next
  case False
  then show ?thesis by (auto simp: getCellValue_def Range_setValues_def)
qed

lemma written_cell:
  "getCellValue (writtenSheet t records) r c =
     (if lastRow t < r \<and> r \<le> lastRow t + length records \<and> 1 \<le> c \<and> c \<le> length (headers t)
      then getValues t (records ! (r - (1 + lastRow t))) ! (c - 1)
      else getCellValue (sheet t) r c)"
proof -
  let ?rg = "\<lparr>rangeRow = 1 + lastRow t, rangeColumn = 1, numRows = length records,
        numColumns = length (headers t)\<rparr>"
  have in_iff: "inRange ?rg r c \<longleftrightarrow>
      lastRow t < r \<and> r \<le> lastRow t + length records \<and> 1 \<le> c \<and> c \<le> length (headers t)"
    by (auto simp: inRange_def)
  have "getCellValue (writtenSheet t records) r c =
      (if inRange ?rg r c then map (getValues t) records ! (r - rangeRow ?rg) ! (c - rangeColumn ?rg)
       else getCellValue (sheet t) r c)"
    unfolding writtenSheet_def by (rule getCellValue_setValues) simp_all
  moreover have "map (getValues t) records ! (r - rangeRow ?rg) = getValues t (records ! (r - (1 + lastRow t)))"
    if "inRange ?rg r c" using that by (auto simp: inRange_def)
  ultimately show ?thesis using in_iff by auto
qed

lemma midTable_inv:
  assumes "tableInv t" "getLastRow s \<noteq> 0" "getLastColumn s \<noteq> 0"
  shows "tableInv (t\<lparr>sheet := s,
        sheetRange := Some \<lparr>rangeRow = 1, rangeColumn = 1, numRows = getLastRow s,
                             numColumns = getLastColumn s\<rparr>,
        lastRow := getLastRow s\<rparr>)"
  using assms by (auto simp: tableInv_def rangeInv_def headerInv_def rowsInv_def indexInv_def)



section \<open>Lines of the row objects, header columns, single cells\<close>










lemma attachRow_present:
  assumes "row \<in> set (rows t)"
  shows "attachRow t row =
     (Inr (), if indexed t \<and> \<not> list_all isNullish (keyValues t (rowRecord (rowObjects t ! row)))
              then t\<lparr>rowByKeyMap := (rowByKeyMap t)
                     (JSON_stringify (keyValues t (rowRecord (rowObjects t ! row))) \<mapsto> row)\<rparr>
              else t)"
  by (cases t row rule: attachRow_cases) (use assms in auto)

section \<open>C1: absorbing a handle into the index\<close>

text \<open>
  C1, as stated, fails for a handle that is absorbed again: \<^verbatim>\<open>attachRow\<close> tests for an
  existing mapping only when the row is new to the row set
  (\<^verbatim>\<open>isNewRow && this.rowByKeyMap.has(recHash)\<close>), so a handle that is already in the set and
  whose key now maps to a different handle replaces that mapping without an error.
  \<open>exUpdated\<close> is the example table inside \<^verbatim>\<open>setValue('id', 1)\<close> on the handle at line 3,
  when the record is replaced and the hook is about to run: the key \<^verbatim>\<open>[1]\<close> maps to the
  handle of line 2, and absorbing the handle of line 3 returns normally and maps the key to
  it.
\<close>

theorem C1_reabsorbed_row_overwrites:
  "1 \<in> set (rows exUpdated)
   \<and> keyValues exUpdated (getRecord exUpdated 1) = [Val (Num 1)]
   \<and> keyValues exUpdated (getRecord exUpdated 0) = [Val (Num 1)]
   \<and> rowByKeyMap exUpdated (JSON_stringify [Val (Num 1)]) = Some 0
   \<and> fst (attachRow exUpdated 1) = Inr ()
   \<and> rowByKeyMap (snd (attachRow exUpdated 1)) (JSON_stringify [Val (Num 1)]) = Some 1"
  by code_simp

text \<open>
  C1, amended. In every state of a store (\<open>tableInv\<close> holds of every store a program can
  hold, \<open>reachable_inv\<close>, and of the state in which \<^verbatim>\<open>setValue\<close> runs the hook,
  \<open>updatedTable_inv\<close>) with key fields configured, for a record whose key is not all null:
  absorbing a new handle for it (\<^verbatim>\<open>new SheetRow\<close>, whose constructor runs the hook) fails
  when the key is already mapped, with the duplicate-key error that names the line of the
  mapped handle and the line of the new one, and leaves the index as it was, the mapped
  handle being a different one; when the key is not mapped it maps the key to the new
  handle. Either way the new handle joins the row set. Absorbing again a handle of the row
  set never fails and maps the handle's present key to it, whatever the key was mapped to.
  The index being a map, a key has at most one handle.
\<close>

theorem C1_absorption:
  assumes "tableInv t" "indexed t" "\<not> list_all isNullish (keyValues t rec0)"
  shows "(\<forall>existRow. rowByKeyMap t (JSON_stringify (keyValues t rec0)) = Some existRow \<longrightarrow>
            fst (SheetRow_new t rec0 line0) = Inl (DuplicateKey (getLine t existRow) line0)
            \<and> rowByKeyMap (snd (SheetRow_new t rec0 line0)) = rowByKeyMap t
            \<and> existRow \<noteq> length (rowObjects t))
    \<and> (rowByKeyMap t (JSON_stringify (keyValues t rec0)) = None \<longrightarrow>
            fst (SheetRow_new t rec0 line0) = Inr (length (rowObjects t))
            \<and> rowByKeyMap (snd (SheetRow_new t rec0 line0)) =
                 (rowByKeyMap t)(JSON_stringify (keyValues t rec0) \<mapsto> length (rowObjects t)))
    \<and> length (rowObjects t) \<notin> set (getRows t)
    \<and> getRows (snd (SheetRow_new t rec0 line0)) = getRows t @ [length (rowObjects t)]
    \<and> getRecord (snd (SheetRow_new t rec0 line0)) (length (rowObjects t)) = rec0
    \<and> getLine (snd (SheetRow_new t rec0 line0)) (length (rowObjects t)) = line0
    \<and> (\<forall>row \<in> set (getRows t). getRecord t row = rec0 \<longrightarrow>
            attachRow t row =
              (Inr (), t\<lparr>rowByKeyMap := (rowByKeyMap t)(JSON_stringify (keyValues t rec0) \<mapsto> row)\<rparr>))"
proof -
  from assms(1) have ri: "rowsInv t" and ii: "indexInv t" by (simp_all add: tableInv_def)
  have fresh: "length (rowObjects t) \<notin> set (rows t)" using ri by (rule rowsInv_fresh)
  have bound: "x < length (rowObjects t)" if "rowByKeyMap t k = Some x" for k x
    using that ii ri by (auto simp: indexInv_def rowsInv_def)
  have dup: "fst (SheetRow_new t rec0 line0) = Inl (DuplicateKey (getLine t existRow) line0)
            \<and> rowByKeyMap (snd (SheetRow_new t rec0 line0)) = rowByKeyMap t
            \<and> existRow \<noteq> length (rowObjects t)"
    if e: "rowByKeyMap t (JSON_stringify (keyValues t rec0)) = Some existRow" for existRow
  proof (rule SheetRow_new_cases [OF fresh, where ?rec0.0 = rec0 and ?line0.0 = line0], goal_cases)
    case 1
    with assms(2,3) show ?case by simp
  next
    case (2 x)
    with e have "x = existRow" by simp
    with 2(4) bound [OF e] show ?case by (simp add: nth_append getLine_def)
  next
    case 3
    with e show ?case by simp
  qed
  have new: "fst (SheetRow_new t rec0 line0) = Inr (length (rowObjects t))
            \<and> rowByKeyMap (snd (SheetRow_new t rec0 line0)) =
                 (rowByKeyMap t)(JSON_stringify (keyValues t rec0) \<mapsto> length (rowObjects t))"
    if n: "rowByKeyMap t (JSON_stringify (keyValues t rec0)) = None"
  proof (rule SheetRow_new_cases [OF fresh, where ?rec0.0 = rec0 and ?line0.0 = line0], goal_cases)
    case 1
    with assms(2,3) show ?case by simp
  next
    case (2 x)
    with n show ?case by simp
  next
    case 3
    then show ?case by simp
  qed
  from SheetRow_new_inv [OF assms(1), of rec0 line0]
  have shape: "rowObjects (snd (SheetRow_new t rec0 line0)) = rowObjects t @ [\<lparr>rowRecord = rec0, rowLine = line0\<rparr>]"
    "rows (snd (SheetRow_new t rec0 line0)) = rows t @ [length (rowObjects t)]" by simp_all
  have again: "attachRow t row =
      (Inr (), t\<lparr>rowByKeyMap := (rowByKeyMap t)(JSON_stringify (keyValues t rec0) \<mapsto> row)\<rparr>)"
    if "row \<in> set (getRows t)" "getRecord t row = rec0" for row
    using that assms(2,3) attachRow_present [of row t] by (simp add: getRows_def getRecord_def)
  from dup new fresh shape again show ?thesis
    by (simp add: getRows_def getRecord_def getLine_def)
qed

theorem C1_absorption_witness:
  "tableInv exUpdated
   \<and> indexed exUpdated
   \<and> keyValues exUpdated exRecord1 = [Val (Num 1)]
   \<and> rowByKeyMap exUpdated (JSON_stringify (keyValues exUpdated exRecord1)) = Some 0
   \<and> getLine exUpdated 0 = 2
   \<and> fst (SheetRow_new exUpdated exRecord1 9) = Inl (DuplicateKey 2 9)
   \<and> rowByKeyMap (snd (SheetRow_new exUpdated exRecord1 9)) = rowByKeyMap exUpdated"
proof -
  have inv: "tableInv exUpdated"
    unfolding exUpdated_def by (rule updatedTable_inv) (rule reachable_inv [OF exTable_reachable])
  have ix: "indexed exUpdated" by code_simp
  have kv: "keyValues exUpdated exRecord1 = [Val (Num 1)]" by code_simp
  then have nn: "\<not> list_all isNullish (keyValues exUpdated exRecord1)" by simp
  have e: "rowByKeyMap exUpdated (JSON_stringify (keyValues exUpdated exRecord1)) = Some 0" by code_simp
  have l: "getLine exUpdated 0 = 2" by code_simp
  from C1_absorption [OF inv ix nn, of 9] e l
  have "fst (SheetRow_new exUpdated exRecord1 9) = Inl (DuplicateKey 2 9)
      \<and> rowByKeyMap (snd (SheetRow_new exUpdated exRecord1 9)) = rowByKeyMap exUpdated"
    by simp
  with inv ix kv e l show ?thesis by simp
qed

section \<open>C2: a duplicate key found by \<^verbatim>\<open>addRecords\<close>\<close>

lemma addRecords_Inl:
  assumes "tableInv t" "addRecords t records = (Inl (DuplicateKey existLine newLine), t')"
  shows "records \<noteq> [] \<and> sheet t' = writtenSheet t records \<and>
    (\<exists>j < length records.
       rowObjects t' = rowObjects t @ newObjects (lastRow t) (take (Suc j) records) \<and>
       rows t' = rows t @ [length (rowObjects t)..<length (rowObjects t) + Suc j] \<and>
       indexed t \<and> \<not> list_all isNullish (keyValues t (records ! j)) \<and>
       newLine = lastRow t + j + 1 \<and>
       (\<exists>x. x < length (rowObjects t) + j \<and>
            rowByKeyMap t' (JSON_stringify (keyValues t (records ! j))) = Some x \<and>
            existLine = rowLine (rowObjects t' ! x)) \<and>
       (\<forall>k. rowByKeyMap t' k \<noteq> Some (length (rowObjects t) + j)))"
proof -
  from assms(1) have gi: "rangeInv t" by (simp add: tableInv_def)
  then obtain rg where rg: "sheetRange t = Some rg" by (auto simp: rangeInv_def split: option.splits)
  from assms(2) addRecords_empty [OF rg] have ne: "records \<noteq> []" by auto
  let ?s = "writtenSheet t records"
  let ?t1 = "t\<lparr>sheet := ?s,
        sheetRange := Some \<lparr>rangeRow = 1, rangeColumn = 1, numRows = getLastRow ?s,
                             numColumns = getLastColumn ?s\<rparr>,
        lastRow := getLastRow ?s\<rparr>"
  from assms(2) addRecords_unfold [OF gi ne]
  have content: "getLastRow ?s \<noteq> 0" "getLastColumn ?s \<noteq> 0"
    and m: "mapRecords ?t1 (lastRow t) 0 records = (Inl (DuplicateKey existLine newLine), t')"
    by (auto simp: createInternalRows_def split: if_splits)
  have i1: "tableInv ?t1" using assms(1) content by (rule midTable_inv)
  from mapRecords_inv [OF i1, of "lastRow t" 0 records] m have "sameStore ?t1 t'" by simp
  then have sh: "sheet t' = ?s" by (simp add: sameStore_def)
  have kv: "keyValues ?t1 = keyValues t" by (simp add: keyValues_def fun_eq_iff)
  have ix: "indexed ?t1 = indexed t" by (simp add: indexed_def)
  from mapRecords_Inl [OF i1 m] obtain j x where j: "j < length records"
    and ob: "rowObjects ?t1 @ newObjects (lastRow t + 0) (take (Suc j) records) = rowObjects t'"
    and rw: "rows t' = rows ?t1 @ [length (rowObjects ?t1)..<length (rowObjects ?t1) + Suc j]"
    and ixd: "indexed ?t1" and nn: "\<not> list_all isNullish (keyValues ?t1 (records ! j))"
    and x: "x < length (rowObjects ?t1) + j"
      "rowByKeyMap t' (JSON_stringify (keyValues ?t1 (records ! j))) = Some x"
      "DuplicateKey existLine newLine = DuplicateKey (rowLine (rowObjects t' ! x)) (lastRow t + 0 + j + 1)"
    and no: "\<forall>k. rowByKeyMap t' k \<noteq> Some (length (rowObjects ?t1) + j)"
    by metis
  have "rowObjects t' = rowObjects t @ newObjects (lastRow t) (take (Suc j) records)"
    using ob by simp
  moreover have "rows t' = rows t @ [length (rowObjects t)..<length (rowObjects t) + Suc j]"
    using rw by simp
  moreover have "indexed t" using ixd ix by simp
  moreover have "\<not> list_all isNullish (keyValues t (records ! j))" using nn kv by simp
  moreover have "newLine = lastRow t + j + 1" using x(3) by simp
  moreover have "\<exists>x. x < length (rowObjects t) + j \<and>
            rowByKeyMap t' (JSON_stringify (keyValues t (records ! j))) = Some x \<and>
            existLine = rowLine (rowObjects t' ! x)"
    using x kv by auto
  moreover have "\<forall>k. rowByKeyMap t' k \<noteq> Some (length (rowObjects t) + j)"
    using no by simp
  ultimately show ?thesis using ne sh j by blast
qed

text \<open>
  C2, as stated, fails in its last part: \<^verbatim>\<open>attachRow\<close> adds the new row object to \<^verbatim>\<open>rows\<close>
  before it looks at the key, so after the exception the row-handle set holds the failing
  handle. With the example table (keys 1 and 2 at lines 2 and 3), appending a record with
  key 2 throws the duplicate-key error for lines 3 and 4 and leaves three handles in the
  row set, the third being the failing one at line 4.
\<close>

theorem C2_failing_row_in_row_set:
  "fst (addRecords exTable [exRecordDup]) = Inl (DuplicateKey 3 4)
   \<and> getRows exTable = [0, 1]
   \<and> getRows (snd (addRecords exTable [exRecordDup])) = [0, 1, 2]
   \<and> getLine (snd (addRecords exTable [exRecordDup])) 2 = 4
   \<and> getRecord (snd (addRecords exTable [exRecordDup])) 2 ''name'' = Val (Str ''c'')"
  by code_simp

text \<open>
  C2, amended: for every \<^verbatim>\<open>addRecords\<close> call that fails with a duplicate-key error, the
  whole block of encoded rows has been written to the grid at the lines after the
  end-of-table counter; the failing record is one of the batch, its handle is bound to the
  line that the error names as the new one, and that handle is not in the key index, whose
  entry for the key still is the other handle at the line named as the existing one; but
  the handle has been added to the row-handle set.
\<close>

theorem C2_duplicate_after_write:
  assumes "reachable t"
    and "addRecords t records = (Inl (DuplicateKey existLine newLine), t')"
  shows "(\<forall>i < length records. \<forall>j < length (headers t).
            getCellValue (sheet t') (lastRow t + 1 + i) (j + 1) = getValues t (records ! i) ! j)
    \<and> (\<exists>i < length records. \<exists>existRow.
          newLine = lastRow t + 1 + i
          \<and> getLine t' (length (rowObjects t) + i) = newLine
          \<and> getRecord t' (length (rowObjects t) + i) = records ! i
          \<and> length (rowObjects t) + i \<in> set (getRows t')
          \<and> length (rowObjects t) + i \<notin> set (getRows t)
          \<and> (\<forall>k. rowByKeyMap t' k \<noteq> Some (length (rowObjects t) + i))
          \<and> rowByKeyMap t' (JSON_stringify (keyValues t (records ! i))) = Some existRow
          \<and> existRow \<noteq> length (rowObjects t) + i
          \<and> getLine t' existRow = existLine)"
proof -
  from assms(1) have inv: "tableInv t" by (rule reachable_inv)
  from addRecords_Inl [OF inv assms(2)] obtain j x where
    sh: "sheet t' = writtenSheet t records" and j: "j < length records"
    and ob: "rowObjects t' = rowObjects t @ newObjects (lastRow t) (take (Suc j) records)"
    and rw: "rows t' = rows t @ [length (rowObjects t)..<length (rowObjects t) + Suc j]"
    and nl: "newLine = lastRow t + j + 1"
    and x: "x < length (rowObjects t) + j"
      "rowByKeyMap t' (JSON_stringify (keyValues t (records ! j))) = Some x"
      "existLine = rowLine (rowObjects t' ! x)"
    and no: "\<forall>k. rowByKeyMap t' k \<noteq> Some (length (rowObjects t) + j)"
    by blast
  have cells: "\<forall>i < length records. \<forall>j < length (headers t).
      getCellValue (sheet t') (lastRow t + 1 + i) (j + 1) = getValues t (records ! i) ! j"
    by (simp add: sh written_cell)
  have jl: "j < length (take (Suc j) records)" using j by simp
  have obj: "rowObjects t' ! (length (rowObjects t) + j)
      = \<lparr>rowRecord = records ! j, rowLine = lastRow t + j + 1\<rparr>"
    using ob nth_newObjects [OF jl, of "lastRow t"] by (simp add: nth_append)
  have "getLine t' (length (rowObjects t) + j) = newLine"
    "getRecord t' (length (rowObjects t) + j) = records ! j"
    using obj nl by (simp_all add: getLine_def getRecord_def)
  moreover have "length (rowObjects t) + j \<in> set (getRows t')"
    using rw by (simp add: getRows_def)
  moreover have "length (rowObjects t) + j \<notin> set (getRows t)"
    using inv by (simp add: getRows_def tableInv_def rowsInv_def)
  moreover have "x \<noteq> length (rowObjects t) + j" using x(1) by simp
  moreover have "getLine t' x = existLine" using x(3) by (simp add: getLine_def)
  moreover have "newLine = lastRow t + 1 + j" using nl by simp
  ultimately have "\<exists>i < length records. \<exists>existRow.
          newLine = lastRow t + 1 + i
          \<and> getLine t' (length (rowObjects t) + i) = newLine
          \<and> getRecord t' (length (rowObjects t) + i) = records ! i
          \<and> length (rowObjects t) + i \<in> set (getRows t')
          \<and> length (rowObjects t) + i \<notin> set (getRows t)
          \<and> (\<forall>k. rowByKeyMap t' k \<noteq> Some (length (rowObjects t) + i))
          \<and> rowByKeyMap t' (JSON_stringify (keyValues t (records ! i))) = Some existRow
          \<and> existRow \<noteq> length (rowObjects t) + i
          \<and> getLine t' existRow = existLine"
    using j no x(2) by blast
  with cells show ?thesis by blast
qed

theorem C2_duplicate_after_write_witness:
  "reachable exTable
   \<and> fst (addRecords exTable [exRecordDup]) = Inl (DuplicateKey 3 4)
   \<and> lastRow exTable = 3
   \<and> getCellValue (sheet (snd (addRecords exTable [exRecordDup]))) 4 2 = Str ''c''"
proof -
  have b: "fst (addRecords exTable [exRecordDup]) = Inl (DuplicateKey 3 4)" by code_simp
  then have c: "addRecords exTable [exRecordDup]
      = (Inl (DuplicateKey 3 4), snd (addRecords exTable [exRecordDup]))"
    by (metis prod.collapse)
  have f: "lastRow exTable = 3" by code_simp
  have g: "length (headers exTable) = 2" by code_simp
  have h: "getValues exTable exRecordDup ! 1 = Str ''c''" by code_simp
  from C2_duplicate_after_write [OF exTable_reachable c]
  have cells: "\<forall>i < length [exRecordDup]. \<forall>j < length (headers exTable).
      getCellValue (sheet (snd (addRecords exTable [exRecordDup]))) (lastRow exTable + 1 + i) (j + 1)
        = getValues exTable ([exRecordDup] ! i) ! j"
    by blast
  from cells [rule_format, of 0 1] f g h
  have "getCellValue (sheet (snd (addRecords exTable [exRecordDup]))) 4 2 = Str ''c''"
    by (simp add: numeral_2_eq_2)
  with exTable_reachable b f show ?thesis by simp
qed


section \<open>C3: \<^verbatim>\<open>setValue\<close> on a row handle\<close>






section \<open>C4: the record codec\<close>







section \<open>C5: all-null keys\<close>







section \<open>C6: appending records\<close>




section \<open>C7: a bad header row\<close>







section \<open>C8: mandatory and key headers\<close>




section \<open>C9: which key values the index identifies\<close>




section \<open>C10: an empty list of records\<close>

text \<open>
  C10: \<^verbatim>\<open>addRecords([])\<close>, and \<^verbatim>\<open>addRows([])\<close> of the first variant, read
  \<^verbatim>\<open>values[0].length\<close> of the empty list of encoded rows before anything is written: the
  call ends with the runtime's type error, not with a batch and not with an error of the
  store, and the table, the sheet included, is as it was.
\<close>

theorem C10_empty_list:
  assumes "reachable t"
  shows "addRecords t [] = (Inl TypeError, t) \<and> addRows so [] = (Inl TypeError, so)"
proof -
  from assms have "rangeInv t" using reachable_inv by (simp add: tableInv_def)
  then obtain rg where "sheetRange t = Some rg" by (auto simp: rangeInv_def split: option.splits)
  then have "addRecords t [] = (Inl TypeError, t)" by (rule addRecords_empty)
  moreover have "addRows so [] = (Inl TypeError, so)" by (simp add: addRows_def)
  ultimately show ?thesis by simp
qed

theorem C10_empty_list_witness:
  "reachable exTable
   \<and> addRecords exTable [] = (Inl TypeError, exTable)
   \<and> addRows exObject [] = (Inl TypeError, exObject)"
  using C10_empty_list [OF exTable_reachable, of exObject] exTable_reachable by simp

end
